theory Spec2Isabelle
  imports Main
begin

section \<open>Go library functions used by the certificate handler\<close>

text \<open>
  Go strings are byte sequences; they are modelled as \<open>string\<close> (lists of 8-bit
  characters). The functions of package \<open>strings\<close> that \<open>certs.go\<close> calls are
  written out below for the arguments the handler gives them.
\<close>

definition HasPrefix :: "string \<Rightarrow> string \<Rightarrow> bool" where
  "HasPrefix s pre = (take (length pre) s = pre)"

definition TrimPrefix :: "string \<Rightarrow> string \<Rightarrow> string" where
  "TrimPrefix s pre = (if HasPrefix s pre then drop (length pre) s else s)"

definition HasSuffix :: "string \<Rightarrow> string \<Rightarrow> bool" where
  "HasSuffix s suf = (length suf \<le> length s \<and> drop (length s - length suf) s = suf)"

definition TrimSuffix :: "string \<Rightarrow> string \<Rightarrow> string" where
  "TrimSuffix s suf = (if HasSuffix s suf then take (length s - length suf) s else s)"

text \<open>\<open>strings.Contains(s, substr)\<close>: \<open>substr\<close> occurs somewhere within \<open>s\<close>.\<close>

fun Contains :: "string \<Rightarrow> string \<Rightarrow> bool" where
  "Contains [] sub = (sub = [])"
| "Contains (c # s) sub = (HasPrefix (c # s) sub \<or> Contains s sub)"

text \<open>
  \<open>strings.SplitN(s, sep, 2)\<close> for a one-byte separator: the text before the first
  separator and the unsplit remainder after it, or \<open>s\<close> alone when there is no
  separator.
\<close>

definition SplitN2 :: "string \<Rightarrow> char \<Rightarrow> string list" where
  "SplitN2 s sep =
     (if sep \<in> set s
      then [takeWhile (\<lambda>c. c \<noteq> sep) s, tl (dropWhile (\<lambda>c. c \<noteq> sep) s)]
      else [s])"

section \<open>The world outside the handler\<close>

text \<open>
  The handler consults the resolver (\<open>net.LookupAddr\<close>, \<open>net.LookupHost\<close>) and the
  file system (\<open>os.ReadFile\<close>). Each is a function of the runtime record; a Go call
  returning \<open>(value, err)\<close> is a sum with the error on the left.
  \<open>strings.EqualFold\<close> compares under Unicode simple case folding, whose tables are
  part of the Go runtime and not of this repository, so it is a field as well: every
  theorem below holds for any folding relation.
\<close>

datatype read_error = ErrNotExist | ErrOther string

record runtime =
  LookupAddr :: "string \<Rightarrow> string + string list"
  LookupHost :: "string \<Rightarrow> string + string list"
  ReadFile :: "string \<Rightarrow> read_error + string"
  EqualFold :: "string \<Rightarrow> string \<Rightarrow> bool"

text \<open>The ways \<open>net.SplitHostPort\<close> rejects an address.\<close>

datatype addr_error =
    MissingPort
  | TooManyColons
  | MissingClosingBracket
  | UnexpectedOpenBracket
  | UnexpectedCloseBracket

text \<open>
  What the handler does to the outside world, in order: the four \<open>log.Printf\<close>
  calls with their arguments, the lookups and the file read.
\<close>

datatype log_line =
    LogBadRemoteAddr string addr_error
  | LogDenied string
  | LogReadFailed string read_error
  | LogServed string string

datatype event =
    EvLookupAddr string
  | EvLookupHost string
  | EvReadFile string
  | EvLog log_line

section \<open>\<open>isAllowedByFCrDNS\<close>\<close>

text \<open>The innermost loop: \<open>for _, addr := range addrs { if addr == clientIP ... }\<close>.\<close>

fun addr_loop :: "string \<Rightarrow> string list \<Rightarrow> bool" where
  "addr_loop clientIP [] = False"
| "addr_loop clientIP (addr # addrs) = (if addr = clientIP then True else addr_loop clientIP addrs)"

text \<open>
  The loop over the allowlist for one PTR hostname. The result is whether the function
  returned \<open>true\<close> from inside the loop, with the lookups performed.
\<close>

fun allowed_loop :: "runtime \<Rightarrow> string \<Rightarrow> string \<Rightarrow> string list \<Rightarrow> bool \<times> event list" where
  "allowed_loop rt clientIP hostname [] = (False, [])"
| "allowed_loop rt clientIP hostname (allowed # rest) =
     (if \<not> EqualFold rt hostname allowed then allowed_loop rt clientIP hostname rest
      else
        (case LookupHost rt hostname of
           Inl err \<Rightarrow>
             (let (b, t) = allowed_loop rt clientIP hostname rest in (b, EvLookupHost hostname # t))
         | Inr addrs \<Rightarrow>
             if addr_loop clientIP addrs then (True, [EvLookupHost hostname])
             else (let (b, t) = allowed_loop rt clientIP hostname rest
                   in (b, EvLookupHost hostname # t))))"

text \<open>The loop over the PTR records.\<close>

fun ptr_loop :: "runtime \<Rightarrow> string \<Rightarrow> string list \<Rightarrow> string list \<Rightarrow> bool \<times> event list" where
  "ptr_loop rt clientIP allowlist [] = (False, [])"
| "ptr_loop rt clientIP allowlist (ptr # ptrs) =
     (let hostname = TrimSuffix ptr ''.'';
          (b, t) = allowed_loop rt clientIP hostname allowlist
      in if b then (True, t)
         else (let (b', t') = ptr_loop rt clientIP allowlist ptrs in (b', t @ t')))"

definition isAllowedByFCrDNS :: "runtime \<Rightarrow> string \<Rightarrow> string list \<Rightarrow> bool \<times> event list" where
  "isAllowedByFCrDNS rt clientIP allowlist =
     (if length allowlist = 0 then (False, [])
      else
        (case LookupAddr rt clientIP of
           Inl err \<Rightarrow> (False, [EvLookupAddr clientIP])
         | Inr ptrs \<Rightarrow>
             if length ptrs = 0 then (False, [EvLookupAddr clientIP])
             else (let (b, t) = ptr_loop rt clientIP allowlist ptrs
                   in (b, EvLookupAddr clientIP # t))))"

section \<open>\<open>net.SplitHostPort\<close>\<close>

text \<open>
  \<open>net.SplitHostPort\<close> of the Go standard library: the port follows the last colon;
  a host in brackets ends at the first \<open>]\<close>, which must stand just before that colon;
  an unbracketed host has no colon of its own; no stray bracket is allowed.
\<close>

definition IndexByte :: "string \<Rightarrow> char \<Rightarrow> nat option" where
  "IndexByte s c = (if c \<in> set s then Some (length (takeWhile (\<lambda>x. x \<noteq> c) s)) else None)"

definition LastIndexByte :: "string \<Rightarrow> char \<Rightarrow> nat option" where
  "LastIndexByte s c =
     (if c \<in> set s then Some (length s - 1 - length (takeWhile (\<lambda>x. x \<noteq> c) (rev s))) else None)"

definition bracket_checks ::
  "string \<Rightarrow> string \<Rightarrow> nat \<Rightarrow> nat \<Rightarrow> nat \<Rightarrow> addr_error + (string \<times> string)" where
  "bracket_checks hostport host j k i =
     (if IndexByte (drop j hostport) (CHR ''['') \<noteq> None then Inl UnexpectedOpenBracket
      else if IndexByte (drop k hostport) (CHR '']'') \<noteq> None then Inl UnexpectedCloseBracket
      else Inr (host, drop (i + 1) hostport))"

definition SplitHostPort :: "string \<Rightarrow> addr_error + (string \<times> string)" where
  "SplitHostPort hostport =
     (case LastIndexByte hostport (CHR '':'') of
        None \<Rightarrow> Inl MissingPort
      | Some i \<Rightarrow>
          if hostport ! 0 = CHR ''['' then
            (case IndexByte hostport (CHR '']'') of
               None \<Rightarrow> Inl MissingClosingBracket
             | Some e \<Rightarrow>
                 if e + 1 = length hostport then Inl MissingPort
                 else if e + 1 = i then
                   bracket_checks hostport (take (e - 1) (drop 1 hostport)) 1 (e + 1) i
                 else if hostport ! (e + 1) = CHR '':'' then Inl TooManyColons
                 else Inl MissingPort)
          else
            (let host = take i hostport in
             if IndexByte host (CHR '':'') \<noteq> None then Inl TooManyColons
             else bracket_checks hostport host 0 0 i))"

section \<open>\<open>filepath.Clean\<close> and \<open>filepath.Join\<close>\<close>

text \<open>
  \<open>filepath.Join\<close> (on Unix) drops leading empty elements, joins the rest with
  \<open>/\<close> and cleans the result. \<open>filepath.Clean\<close> works lexically, element by element:
  empty and \<open>.\<close> elements vanish, \<open>..\<close> removes the element before it (at the
  start of a rooted path it vanishes, at the start of a relative one it stays), and an
  empty result is \<open>.\<close>.
\<close>

text \<open>The elements of a path: the text between separators, first element apart.\<close>

fun split_first :: "string \<Rightarrow> string \<times> string list" where
  "split_first [] = ([], [])"
| "split_first (c # s) =
     (case split_first s of
        (e, es) \<Rightarrow> if c = CHR ''/'' then ([], e # es) else (c # e, es))"

definition path_elems :: "string \<Rightarrow> string list" where
  "path_elems s = (case split_first s of (e, es) \<Rightarrow> e # es)"

fun join_elems :: "string list \<Rightarrow> string" where
  "join_elems [] = []"
| "join_elems [e] = e"
| "join_elems (e # es) = e @ CHR ''/'' # join_elems es"

definition clean_elem :: "bool \<Rightarrow> string list \<Rightarrow> string \<Rightarrow> string list" where
  "clean_elem rooted out e =
     (if e = [] \<or> e = ''.'' then out
      else if e = ''..'' then
        (if out \<noteq> [] \<and> last out \<noteq> ''..'' then butlast out
         else if \<not> rooted then out @ [''..'']
         else out)
      else out @ [e])"

definition Clean :: "string \<Rightarrow> string" where
  "Clean path =
     (if path = [] then ''.''
      else
        (let rooted = (hd path = CHR ''/'');
             out = foldl (clean_elem rooted) [] (path_elems path)
         in if rooted then CHR ''/'' # join_elems out
            else if out = [] then ''.''
            else join_elems out))"

fun Join :: "string list \<Rightarrow> string" where
  "Join [] = []"
| "Join (e # es) = (if e \<noteq> [] then Clean (join_elems (e # es)) else Join es)"

declare Join.simps [simp del]

section \<open>What lying beneath the certificate root means\<close>

text \<open>
  A cleaned directory path as a prefix of the paths below it: nothing for the current
  directory, the separator alone for the root directory, the path and a separator
  otherwise. A path lies beneath a root when it extends the cleaned root by a
  non-empty relative path none of whose elements is empty or \<open>..\<close>.
\<close>

definition dir_prefix :: "string \<Rightarrow> string" where
  "dir_prefix c = (if c = ''.'' then [] else if c = ''/'' then ''/'' else c @ ''/'')"

definition beneath :: "string \<Rightarrow> string \<Rightarrow> bool" where
  "beneath root p =
     (let pre = dir_prefix (Clean root); rel = drop (length pre) p
      in take (length pre) p = pre \<and> rel \<noteq> [] \<and>
         [] \<notin> set (path_elems rel) \<and> ''..'' \<notin> set (path_elems rel))"

text \<open>A path element that \<open>Clean\<close> keeps as it is, \<open>..\<close> apart.\<close>

definition plain :: "string \<Rightarrow> bool" where
  "plain e = (e \<noteq> [] \<and> e \<noteq> ''.'' \<and> CHR ''/'' \<notin> set e)"

text \<open>The elements a validated domain and file name add to a path.\<close>

definition rel_path :: "string \<Rightarrow> string \<Rightarrow> string" where
  "rel_path domain fileName =
     (if domain = [] \<or> domain = ''.'' then fileName else domain @ ''/'' @ fileName)"

section \<open>\<open>CertsHandler\<close>\<close>

text \<open>\<open>allowedCertFiles\<close>: a Go \<open>map[string]bool\<close>; a missing key reads as \<open>false\<close>.\<close>

definition allowedCertFiles :: "string \<Rightarrow> bool" where
  "allowedCertFiles name =
     (case map_of [(''fullchain.pem'', True), (''privkey.pem'', True),
                   (''cert.pem'', True), (''chain.pem'', True)] name of
        Some b \<Rightarrow> b
      | None \<Rightarrow> False)"

text \<open>
  The parts of \<open>http.Request\<close> that exist for the handler. \<open>Header\<close> maps a
  canonical header name to its values (none when the header is absent), and
  \<open>Header.Get\<close> returns the first value or the empty string.
\<close>

record request =
  Method :: string
  Header :: "string \<Rightarrow> string list"
  RemoteAddr :: string
  URL_Path :: string

definition Header_Get :: "(string \<Rightarrow> string list) \<Rightarrow> string \<Rightarrow> string" where
  "Header_Get h key = (case h key of [] \<Rightarrow> [] | v # vs \<Rightarrow> v)"

record response =
  status :: nat
  content_type :: string
  body :: string

text \<open>
  \<open>http.Error\<close> answers in plain text: the message and a newline. Of the response
  headers only the content type is kept.
\<close>

definition http_Error :: "string \<Rightarrow> nat \<Rightarrow> response" where
  "http_Error msg code =
     \<lparr>status = code, content_type = ''text/plain; charset=utf-8'', body = msg @ [CHR 0x0A]\<rparr>"

definition IsNotExist :: "read_error \<Rightarrow> bool" where
  "IsNotExist err = (err = ErrNotExist)"

text \<open>The message of the first 400 answer; its dash is U+2013 in UTF-8.\<close>

definition bad_request_expected :: string where
  "bad_request_expected =
     ''Bad Request '' @ [CHR 0xE2, CHR 0x80, CHR 0x93] @ '' expected /certs/{domain}/{file}''"

text \<open>
  The handler closure. Its captured variables \<open>bearerToken\<close>, \<open>dnsAllowlist\<close> and
  \<open>certsBaseDir\<close> are arguments: the closure only reads them. The result is the
  response written and the lookups, reads and log lines performed, in order.
\<close>

definition CertsHandler ::
  "string \<Rightarrow> string list \<Rightarrow> string \<Rightarrow> runtime \<Rightarrow> request \<Rightarrow> response \<times> event list" where
  "CertsHandler bearerToken dnsAllowlist certsBaseDir rt r =
     (if Header_Get (Header r) ''Authorization'' \<noteq> ''Bearer '' @ bearerToken
      then (http_Error ''Unauthorized'' 401, [])
      else
        (case SplitHostPort (RemoteAddr r) of
           Inl err \<Rightarrow>
             (http_Error ''Forbidden'' 403, [EvLog (LogBadRemoteAddr (RemoteAddr r) err)])
         | Inr (clientIP, port) \<Rightarrow>
             (let (ok, t) = isAllowedByFCrDNS rt clientIP dnsAllowlist in
              if \<not> ok then (http_Error ''Forbidden'' 403, t @ [EvLog (LogDenied clientIP)])
              else
                (let trimmed = TrimPrefix (URL_Path r) ''/certs/'';
                     parts = SplitN2 trimmed (CHR ''/'')
                 in if length parts \<noteq> 2 then (http_Error bad_request_expected 400, t)
                    else if parts ! 0 = [] \<or> parts ! 1 = []
                    then (http_Error bad_request_expected 400, t)
                    else
                      (let domain = parts ! 0; fileName = parts ! 1 in
                       if Contains domain ''..'' \<or> Contains domain ''/''
                            \<or> Contains domain [CHR 0x5C]
                       then (http_Error ''Bad Request'' 400, t)
                       else if \<not> allowedCertFiles fileName
                       then (http_Error ''Not Found'' 404, t)
                       else
                         (let certPath = Join [certsBaseDir, domain, fileName] in
                          case ReadFile rt certPath of
                            Inl err \<Rightarrow>
                              if IsNotExist err
                              then (http_Error ''Not Found'' 404, t @ [EvReadFile certPath])
                              else (http_Error ''Internal Server Error'' 500,
                                    t @ [EvReadFile certPath,
                                         EvLog (LogReadFailed certPath err)])
                          | Inr data \<Rightarrow>
                              (\<lparr>status = 200, content_type = ''application/x-pem-file'',
                                body = data\<rparr>,
                               t @ [EvReadFile certPath,
                                    EvLog (LogServed certPath clientIP)])))))))"

section \<open>A sample deployment\<close>

text \<open>
  A deployment for evaluating the handler, after the specification's scenarios: one
  client address with the given PTR records, a forward zone that knows
  \<open>client.example.com\<close> only and answers with the given addresses, and one
  certificate file on disk.
  \<open>EqualFold_ascii\<close> folds the letters A to Z only, which is what
  \<open>strings.EqualFold\<close> does on ASCII strings.
\<close>

definition to_lower :: "char \<Rightarrow> char" where
  "to_lower c =
     (if 65 \<le> (of_char c :: nat) \<and> (of_char c :: nat) \<le> 90
      then char_of ((of_char c :: nat) + 32) else c)"

definition EqualFold_ascii :: "string \<Rightarrow> string \<Rightarrow> bool" where
  "EqualFold_ascii s t = (map to_lower s = map to_lower t)"

definition sample_rt ::
  "string \<Rightarrow> string list \<Rightarrow> string list \<Rightarrow> read_error + string \<Rightarrow> runtime" where
  "sample_rt client ptrs addrs file =
     \<lparr>LookupAddr = (\<lambda>ip. if ip = client then Inr ptrs else Inl ''no such host''),
      LookupHost = (\<lambda>h. if h = ''client.example.com'' then Inr addrs
                          else Inl ''no such host''),
      ReadFile = (\<lambda>p. if p = ''/etc/letsencrypt/live/example.org/fullchain.pem'' then file
                        else Inl ErrNotExist),
      EqualFold = EqualFold_ascii\<rparr>"

definition sample_req :: "string \<Rightarrow> string list \<Rightarrow> string \<Rightarrow> string \<Rightarrow> request" where
  "sample_req method auth remote path =
     \<lparr>Method = method,
      Header = (\<lambda>k. if k = ''Authorization'' then auth else []),
      RemoteAddr = remote,
      URL_Path = path\<rparr>"

text \<open>Scenario A of the specification, with the forward answers and the file left open.\<close>

definition rt_A :: "string list \<Rightarrow> read_error + string \<Rightarrow> runtime" where
  "rt_A addrs file = sample_rt ''203.0.113.5'' [''client.example.com.''] addrs file"

definition req_A :: "string \<Rightarrow> string list \<Rightarrow> string \<Rightarrow> request" where
  "req_A method auth path = sample_req method auth ''203.0.113.5:40000'' path"

section \<open>Facts about the string functions\<close>

lemma SplitN2_none: "sep \<notin> set s \<Longrightarrow> SplitN2 s sep = [s]"
  by (simp add: SplitN2_def)

lemma SplitN2_cut:
  assumes "sep \<notin> set a"
  shows "SplitN2 (a @ sep # b) sep = [a, b]"
proof -
  have "\<And>x. x \<in> set a \<Longrightarrow> x \<noteq> sep"
    using assms by auto
  then show ?thesis
    by (simp add: SplitN2_def takeWhile_append2 dropWhile_append2)
qed

lemma split_at_first:
  assumes "sep \<in> set s"
  shows "\<exists>a b. s = a @ sep # b \<and> sep \<notin> set a"
  using assms by (meson split_list_first)

lemma HasPrefix_iff: "HasPrefix s pre \<longleftrightarrow> (\<exists>q. s = pre @ q)"
  unfolding HasPrefix_def
  by (metis append_eq_conv_conj append_take_drop_id)

lemma Contains_iff: "Contains s sub \<longleftrightarrow> (\<exists>p q. s = p @ sub @ q)"
proof (induction s)
  case Nil
  then show ?case by auto
next
  case (Cons c s)
  show ?case
  proof
    assume "Contains (c # s) sub"
    then consider "HasPrefix (c # s) sub" | "Contains s sub" by auto
    then show "\<exists>p q. c # s = p @ sub @ q"
    proof cases
      case 1
      then obtain q where "c # s = sub @ q" by (auto simp: HasPrefix_iff)
      then have "c # s = [] @ sub @ q" by simp
      then show ?thesis by blast
    next
      case 2
      then obtain p q where "s = p @ sub @ q" using Cons.IH by auto
      then have "c # s = (c # p) @ sub @ q" by simp
      then show ?thesis by blast
    qed
  next
    assume "\<exists>p q. c # s = p @ sub @ q"
    then obtain p q where pq: "c # s = p @ sub @ q" by auto
    show "Contains (c # s) sub"
    proof (cases p)
      case Nil
      with pq have "HasPrefix (c # s) sub" by (auto simp: HasPrefix_iff)
      then show ?thesis by simp
    next
      case (Cons x p')
      with pq have "s = p' @ sub @ q" by simp
      then have "Contains s sub" using Cons.IH by blast
      then show ?thesis by simp
    qed
  qed
qed

lemma Contains_single: "Contains s [c] \<longleftrightarrow> c \<in> set s"
  by (auto simp: Contains_iff in_set_conv_decomp)

lemma Contains_suffix: "Contains s (a @ b) \<Longrightarrow> Contains s b"
  unfolding Contains_iff by (metis append.assoc)

lemma first_split_unique:
  assumes "a @ c # b = d @ c # f" and "c \<notin> set a" and "c \<notin> set d"
  shows "a = d \<and> b = f"
  using assms
proof (induction a arbitrary: d)
  case Nil
  then show ?case by (cases d) auto
next
  case (Cons x a)
  then show ?case by (cases d) auto
qed

section \<open>Facts about \<open>Clean\<close> and \<open>Join\<close>\<close>

lemma split_first_nosep: "CHR ''/'' \<notin> set s \<Longrightarrow> split_first s = (s, [])"
  by (induction s) auto

lemma path_elems_nosep: "CHR ''/'' \<notin> set s \<Longrightarrow> path_elems s = [s]"
  by (simp add: path_elems_def split_first_nosep)

lemma split_first_append:
  "split_first (a @ CHR ''/'' # b)
     = (fst (split_first a), snd (split_first a) @ path_elems b)"
  by (induction a) (auto simp: path_elems_def split: prod.splits)

lemma path_elems_append: "path_elems (a @ CHR ''/'' # b) = path_elems a @ path_elems b"
  by (simp add: path_elems_def split_first_append split: prod.splits)

lemma split_first_no_sep_inside:
  "CHR ''/'' \<notin> set (fst (split_first s)) \<and> (\<forall>e \<in> set (snd (split_first s)). CHR ''/'' \<notin> set e)"
  by (induction s) (auto split: prod.splits)

lemma path_elems_no_sep_inside:
  assumes "e \<in> set (path_elems s)"
  shows "CHR ''/'' \<notin> set e"
proof -
  obtain x xs where "split_first s = (x, xs)"
    by (cases "split_first s")
  then show ?thesis
    using split_first_no_sep_inside [of s] assms by (auto simp: path_elems_def)
qed

lemma clean_elem_plain:
  assumes "\<forall>x \<in> set out. plain x" and "CHR ''/'' \<notin> set e"
  shows "\<forall>x \<in> set (clean_elem rooted out e). plain x"
  using assms by (auto simp: clean_elem_def plain_def dest: in_set_butlastD)

lemma foldl_clean_plain:
  assumes "\<forall>x \<in> set out. plain x" and "\<forall>e \<in> set es. CHR ''/'' \<notin> set e"
  shows "\<forall>x \<in> set (foldl (clean_elem rooted) out es). plain x"
  using assms
proof (induction es arbitrary: out)
  case Nil
  then show ?case by simp
next
  case (Cons e es)
  have "\<forall>x \<in> set (clean_elem rooted out e). plain x"
    using Cons.prems by (intro clean_elem_plain) auto
  then show ?case using Cons by simp
qed

lemma join_elems_append:
  "xs \<noteq> [] \<Longrightarrow> ys \<noteq> [] \<Longrightarrow> join_elems (xs @ ys) = join_elems xs @ CHR ''/'' # join_elems ys"
proof (induction xs rule: join_elems.induct)
  case 1
  then show ?case by simp
next
  case (2 e)
  then show ?case by (cases ys) auto
next
  case (3 e v va)
  then show ?case by simp
qed

lemma join_elems_plain:
  assumes "out \<noteq> []" and "\<forall>x \<in> set out. plain x"
  shows "join_elems out \<noteq> [] \<and> join_elems out \<noteq> ''.'' \<and> join_elems out \<noteq> ''/''"
proof (cases out)
  case Nil
  with assms show ?thesis by simp
next
  case (Cons e es)
  show ?thesis
  proof (cases es)
    case Nil
    with Cons assms show ?thesis by (auto simp: plain_def)
  next
    case (Cons e' es')
    with \<open>out = e # es\<close> assms have "e \<noteq> []" by (auto simp: plain_def)
    then obtain c cs where "e = c # cs" by (cases e) auto
    with Cons \<open>out = e # es\<close> show ?thesis by auto
  qed
qed

lemma Clean_dir_prefix:
  assumes "path \<noteq> []"
  shows "dir_prefix (Clean path) =
     (let rooted = (hd path = CHR ''/'');
          out = foldl (clean_elem rooted) [] (path_elems path)
      in (if rooted then ''/'' else []) @ (if out = [] then [] else join_elems out @ ''/''))"
proof -
  define rooted where "rooted = (hd path = CHR ''/'')"
  define out where "out = foldl (clean_elem rooted) [] (path_elems path)"
  have pl: "\<forall>x \<in> set out. plain x"
    unfolding out_def by (rule foldl_clean_plain) (auto dest: path_elems_no_sep_inside)
  have C: "Clean path = (if rooted then CHR ''/'' # join_elems out
            else if out = [] then ''.'' else join_elems out)"
    using assms by (simp add: Clean_def rooted_def out_def Let_def)
  show ?thesis
  proof (cases "out = []")
    case True
    then show ?thesis
      using C by (simp add: dir_prefix_def rooted_def[symmetric] out_def[symmetric] Let_def)
  next
    case False
    then have "join_elems out \<noteq> [] \<and> join_elems out \<noteq> ''.'' \<and> join_elems out \<noteq> ''/''"
      using pl by (intro join_elems_plain) auto
    then show ?thesis
      using C False
      by (simp add: dir_prefix_def rooted_def[symmetric] out_def[symmetric] Let_def)
  qed
qed


lemma allowedCertFiles_iff:
  "allowedCertFiles name \<longleftrightarrow>
     name \<in> {''fullchain.pem'', ''privkey.pem'', ''cert.pem'', ''chain.pem''}"
  by (simp add: allowedCertFiles_def)

lemma allowed_name_plain:
  assumes "allowedCertFiles name"
  shows "plain name \<and> name \<noteq> ''..''"
  using assms by (auto simp: allowedCertFiles_iff plain_def)

lemma Join_validated:
  assumes d1: "CHR ''/'' \<notin> set domain" and d2: "domain \<noteq> ''..''"
    and f: "plain fileName" "fileName \<noteq> ''..''"
  shows "Join [root, domain, fileName] = dir_prefix (Clean root) @ rel_path domain fileName"
proof (cases "root = []")
  case True
  have fn: "CHR ''/'' \<notin> set fileName" "fileName \<noteq> []" "fileName \<noteq> ''.''"
    using f by (auto simp: plain_def)
  have pre: "dir_prefix (Clean root) = []"
    using True by (simp add: Clean_def dir_prefix_def)
  show ?thesis
  proof (cases "domain = []")
    case dn: True
    have "Join [root, domain, fileName] = Clean fileName"
      using True dn fn by (simp add: Join.simps)
    also have "\<dots> = fileName"
      using fn f(2) by (cases fileName) (auto simp: Clean_def path_elems_nosep clean_elem_def)
    finally show ?thesis using pre dn by (simp add: rel_path_def)
  next
    case dn: False
    then have hd: "hd (domain @ CHR ''/'' # fileName) \<noteq> CHR ''/''"
      using d1 by (cases domain) auto
    have pe: "path_elems (domain @ CHR ''/'' # fileName) = [domain, fileName]"
      using d1 fn by (simp add: path_elems_append path_elems_nosep)
    have "Join [root, domain, fileName] = Clean (domain @ CHR ''/'' # fileName)"
      using True dn by (simp add: Join.simps)
    also have "\<dots> = rel_path domain fileName"
      using hd pe dn d2 fn f(2)
      by (simp add: Clean_def clean_elem_def rel_path_def)
    finally show ?thesis using pre by simp
  qed
next
  case False
  have fn: "CHR ''/'' \<notin> set fileName" "fileName \<noteq> []" "fileName \<noteq> ''.''"
    using f by (auto simp: plain_def)
  define whole where "whole = root @ CHR ''/'' # domain @ CHR ''/'' # fileName"
  define rooted where "rooted = (hd root = CHR ''/'')"
  define out where "out = foldl (clean_elem rooted) [] (path_elems root)"
  define rel where "rel = (if domain = [] \<or> domain = ''.'' then [fileName] else [domain, fileName])"
  have J: "Join [root, domain, fileName] = Clean whole"
    using False by (simp add: Join.simps whole_def)
  have r: "(hd whole = CHR ''/'') = rooted"
    using False by (simp add: whole_def rooted_def)
  have pe: "path_elems whole = path_elems root @ [domain, fileName]"
    using d1 fn by (simp add: whole_def path_elems_append path_elems_nosep)
  have fo: "foldl (clean_elem rooted) [] (path_elems whole) = out @ rel"
    using d2 fn f(2) by (simp add: pe out_def rel_def clean_elem_def)
  have relne: "rel \<noteq> []" by (simp add: rel_def)
  have jr: "join_elems rel = rel_path domain fileName"
    by (simp add: rel_def rel_path_def)
  have jo: "join_elems (out @ rel) =
      (if out = [] then [] else join_elems out @ ''/'') @ rel_path domain fileName"
    using relne jr by (simp add: join_elems_append)
  have ne: "whole \<noteq> []"
    by (simp add: whole_def)
  have "Clean whole = (if rooted then ''/'' else []) @ join_elems (out @ rel)"
  proof (cases rooted)
    case True
    then have "hd whole = CHR ''/''"
      using r by simp
    then show ?thesis
      using ne fo relne True by (simp add: Clean_def)
  next
    case False
    then have "hd whole \<noteq> CHR ''/''"
      using r by simp
    then show ?thesis
      using ne fo relne False by (simp add: Clean_def)
  qed
  then show ?thesis
    using J jo Clean_dir_prefix [OF False]
    by (simp add: rooted_def out_def Let_def)
qed

lemma rel_path_elems:
  assumes d1: "CHR ''/'' \<notin> set domain" and d2: "domain \<noteq> ''..''"
    and f: "plain fileName" "fileName \<noteq> ''..''"
  shows "rel_path domain fileName \<noteq> [] \<and> [] \<notin> set (path_elems (rel_path domain fileName))
    \<and> ''..'' \<notin> set (path_elems (rel_path domain fileName))"
  using assms
  by (auto simp: rel_path_def plain_def path_elems_append path_elems_nosep)

lemma Join_beneath:
  assumes d1: "CHR ''/'' \<notin> set domain" and d2: "domain \<noteq> ''..''"
    and f: "plain fileName" "fileName \<noteq> ''..''"
  shows "beneath root (Join [root, domain, fileName])"
  using rel_path_elems [OF assms]
  by (simp add: beneath_def Join_validated [OF assms] Let_def)

lemma Contains_self: "Contains s s"
  by (cases s) (auto simp: HasPrefix_def)

section \<open>The FCrDNS verifier\<close>

lemma addr_loop_iff: "addr_loop clientIP addrs \<longleftrightarrow> clientIP \<in> set addrs"
  by (induction addrs) auto

lemma allowed_loop_fst:
  "fst (allowed_loop rt clientIP hostname allowlist) \<longleftrightarrow>
     (\<exists>allowed \<in> set allowlist. EqualFold rt hostname allowed \<and>
        (\<exists>addrs. LookupHost rt hostname = Inr addrs \<and> clientIP \<in> set addrs))"
  by (induction allowlist) (auto simp: addr_loop_iff split: sum.splits prod.splits)

lemma ptr_loop_fst:
  "fst (ptr_loop rt clientIP allowlist ptrs) \<longleftrightarrow>
     (\<exists>ptr \<in> set ptrs. fst (allowed_loop rt clientIP (TrimSuffix ptr ''.'') allowlist))"
  by (induction ptrs) (auto simp: Let_def split: prod.splits)

lemma isAllowedByFCrDNS_fst:
  "fst (isAllowedByFCrDNS rt clientIP allowlist) \<longleftrightarrow>
     allowlist \<noteq> [] \<and>
     (\<exists>ptrs. LookupAddr rt clientIP = Inr ptrs \<and> ptrs \<noteq> [] \<and>
        (\<exists>ptr \<in> set ptrs. fst (allowed_loop rt clientIP (TrimSuffix ptr ''.'') allowlist)))"
  by (cases "LookupAddr rt clientIP")
     (auto simp: isAllowedByFCrDNS_def ptr_loop_fst[symmetric] split: prod.splits)

lemma allowed_loop_lookup_error:
  assumes "LookupHost rt hostname = Inl err"
  shows "\<not> fst (allowed_loop rt clientIP hostname allowlist)"
  using assms by (simp add: allowed_loop_fst)

text \<open>The verifier performs lookups only.\<close>

lemma allowed_loop_events:
  "set (snd (allowed_loop rt clientIP hostname allowlist)) \<subseteq> {EvLookupHost hostname}"
  by (induction allowlist) (auto split: if_splits sum.splits prod.splits)

lemma ptr_loop_snd:
  "snd (ptr_loop rt clientIP allowlist (ptr # ptrs)) =
     (if fst (allowed_loop rt clientIP (TrimSuffix ptr ''.'') allowlist)
      then snd (allowed_loop rt clientIP (TrimSuffix ptr ''.'') allowlist)
      else snd (allowed_loop rt clientIP (TrimSuffix ptr ''.'') allowlist)
             @ snd (ptr_loop rt clientIP allowlist ptrs))"
  by (simp add: Let_def split: prod.splits)

lemma ptr_loop_events:
  "set (snd (ptr_loop rt clientIP allowlist ptrs)) \<subseteq> range EvLookupHost"
proof (induction ptrs)
  case Nil
  then show ?case by simp
next
  case (Cons ptr ptrs)
  have "set (snd (allowed_loop rt clientIP (TrimSuffix ptr ''.'') allowlist))
      \<subseteq> range EvLookupHost"
    using allowed_loop_events [of rt clientIP "TrimSuffix ptr ''.''" allowlist] by auto
  with Cons.IH show ?case
    unfolding ptr_loop_snd by auto
qed

lemma isAllowedByFCrDNS_unfold:
  "isAllowedByFCrDNS rt clientIP allowlist =
     (if allowlist = [] then (False, [])
      else
        (case LookupAddr rt clientIP of
           Inl err \<Rightarrow> (False, [EvLookupAddr clientIP])
         | Inr ptrs \<Rightarrow>
             if ptrs = [] then (False, [EvLookupAddr clientIP])
             else (fst (ptr_loop rt clientIP allowlist ptrs),
                   EvLookupAddr clientIP # snd (ptr_loop rt clientIP allowlist ptrs))))"
  by (simp add: isAllowedByFCrDNS_def split: sum.splits prod.splits)

lemma isAllowedByFCrDNS_snd:
  "set (snd (isAllowedByFCrDNS rt clientIP allowlist))
     \<subseteq> insert (EvLookupAddr clientIP) (range EvLookupHost)"
proof -
  have "\<And>ptrs e. e \<in> set (snd (ptr_loop rt clientIP allowlist ptrs)) \<Longrightarrow> e \<in> range EvLookupHost"
    using ptr_loop_events by blast
  then show ?thesis
    unfolding isAllowedByFCrDNS_unfold by (auto split: sum.splits)
qed

lemma isAllowedByFCrDNS_events:
  assumes "e \<in> set (snd (isAllowedByFCrDNS rt clientIP allowlist))"
  shows "e = EvLookupAddr clientIP \<or> (\<exists>h. e = EvLookupHost h)"
  using assms isAllowedByFCrDNS_snd [of rt clientIP allowlist] by auto

text \<open>The verifier never looks at the file system.\<close>

lemma allowed_loop_fs [simp]:
  "allowed_loop (rt\<lparr>ReadFile := fs\<rparr>) clientIP hostname allowlist
     = allowed_loop rt clientIP hostname allowlist"
  by (induction allowlist) (auto split: sum.splits prod.splits)

lemma ptr_loop_fs [simp]:
  "ptr_loop (rt\<lparr>ReadFile := fs\<rparr>) clientIP allowlist ptrs = ptr_loop rt clientIP allowlist ptrs"
  by (induction ptrs) (auto split: prod.splits)

lemma isAllowedByFCrDNS_fs [simp]:
  "isAllowedByFCrDNS (rt\<lparr>ReadFile := fs\<rparr>) clientIP allowlist
     = isAllowedByFCrDNS rt clientIP allowlist"
  by (simp add: isAllowedByFCrDNS_def split: sum.splits)

text \<open>
  C1. The verifier accepts exactly when the allowlist is not empty, the reverse lookup
  of the client address succeeds with at least one PTR record, and for some record the
  hostname (without a trailing dot) equals an allowlist entry under case folding and
  its forward lookup succeeds with the client address among the answers. With an empty
  allowlist it rejects having performed no lookup at all.
\<close>

theorem fcrdns_accepts_iff:
  "(fst (isAllowedByFCrDNS rt clientIP allowlist) \<longleftrightarrow>
      allowlist \<noteq> [] \<and>
      (\<exists>ptrs. LookupAddr rt clientIP = Inr ptrs \<and> ptrs \<noteq> [] \<and>
         (\<exists>ptr \<in> set ptrs. \<exists>allowed \<in> set allowlist.
            EqualFold rt (TrimSuffix ptr ''.'') allowed \<and>
            (\<exists>addrs. LookupHost rt (TrimSuffix ptr ''.'') = Inr addrs \<and>
               clientIP \<in> set addrs))))
   \<and> isAllowedByFCrDNS rt clientIP [] = (False, [])"
proof -
  have "isAllowedByFCrDNS rt clientIP [] = (False, [])"
    by (simp add: isAllowedByFCrDNS_def)
  then show ?thesis
    using isAllowedByFCrDNS_fst [of rt clientIP allowlist]
    by (simp only: allowed_loop_fst)
qed

theorem fcrdns_accepts_iff_witness:
  "fst (isAllowedByFCrDNS (rt_A [''203.0.113.5''] (Inr ''PEM'')) ''203.0.113.5''
         [''Client.Example.COM''])
   \<and> (\<exists>ptrs. LookupAddr (rt_A [''203.0.113.5''] (Inr ''PEM'')) ''203.0.113.5'' = Inr ptrs
         \<and> ptrs \<noteq> [])
   \<and> \<not> fst (isAllowedByFCrDNS (rt_A [''203.0.113.9''] (Inr ''PEM'')) ''203.0.113.5''
         [''Client.Example.COM''])
   \<and> isAllowedByFCrDNS (rt_A [''203.0.113.5''] (Inr ''PEM'')) ''203.0.113.5'' []
       = (False, [])"
proof -
  have yes: "fst (isAllowedByFCrDNS (rt_A [''203.0.113.5''] (Inr ''PEM''))
      ''203.0.113.5'' [''Client.Example.COM''])"
    by code_simp
  have no: "\<not> fst (isAllowedByFCrDNS (rt_A [''203.0.113.9''] (Inr ''PEM''))
      ''203.0.113.5'' [''Client.Example.COM''])"
    by code_simp
  show ?thesis
    using yes no
      fcrdns_accepts_iff [of "rt_A [''203.0.113.5''] (Inr ''PEM'')" "''203.0.113.5''"
        "[''Client.Example.COM'']"]
    by blast
qed

section \<open>The stages of the handler\<close>

text \<open>
  What the handler answers once the bearer token, the peer address and the FCrDNS
  check have passed: first for a path without a separator after the prefix, then for a
  path cut at its first separator. The answers of the stages before follow.
\<close>

lemma fst_pairE:
  assumes "fst p"
  obtains t where "p = (True, t)"
  using assms by (cases p) auto

lemma handler_unsplit:
  assumes "Header_Get (Header r) ''Authorization'' = ''Bearer '' @ bearerToken"
    and "SplitHostPort (RemoteAddr r) = Inr (clientIP, port)"
    and "fst (isAllowedByFCrDNS rt clientIP dnsAllowlist)"
    and "CHR ''/'' \<notin> set (TrimPrefix (URL_Path r) ''/certs/'')"
  shows "CertsHandler bearerToken dnsAllowlist certsBaseDir rt r
           = (http_Error bad_request_expected 400, snd (isAllowedByFCrDNS rt clientIP dnsAllowlist))"
proof -
  obtain t where "isAllowedByFCrDNS rt clientIP dnsAllowlist = (True, t)"
    using assms(3) by (rule fst_pairE)
  then show ?thesis
    using assms(1,2,4) by (simp add: CertsHandler_def SplitN2_none)
qed

lemma handler_split:
  assumes "Header_Get (Header r) ''Authorization'' = ''Bearer '' @ bearerToken"
    and "SplitHostPort (RemoteAddr r) = Inr (clientIP, port)"
    and "fst (isAllowedByFCrDNS rt clientIP dnsAllowlist)"
    and "TrimPrefix (URL_Path r) ''/certs/'' = domain @ ''/'' @ fileName"
    and "CHR ''/'' \<notin> set domain"
  shows "CertsHandler bearerToken dnsAllowlist certsBaseDir rt r =
     (let t = snd (isAllowedByFCrDNS rt clientIP dnsAllowlist);
          certPath = Join [certsBaseDir, domain, fileName]
      in if domain = [] \<or> fileName = [] then (http_Error bad_request_expected 400, t)
         else if Contains domain ''..'' \<or> Contains domain [CHR 0x5C]
         then (http_Error ''Bad Request'' 400, t)
         else if \<not> allowedCertFiles fileName then (http_Error ''Not Found'' 404, t)
         else
           (case ReadFile rt certPath of
              Inl err \<Rightarrow>
                if err = ErrNotExist
                then (http_Error ''Not Found'' 404, t @ [EvReadFile certPath])
                else (http_Error ''Internal Server Error'' 500,
                      t @ [EvReadFile certPath, EvLog (LogReadFailed certPath err)])
            | Inr data \<Rightarrow>
                (\<lparr>status = 200, content_type = ''application/x-pem-file'', body = data\<rparr>,
                 t @ [EvReadFile certPath, EvLog (LogServed certPath clientIP)])))"
proof -
  have parts: "SplitN2 (TrimPrefix (URL_Path r) ''/certs/'') (CHR ''/'') = [domain, fileName]"
    using assms(4,5) by (simp add: SplitN2_cut)
  have nosep: "\<not> Contains domain ''/''"
    using assms(5) by (simp add: Contains_single)
  obtain t where "isAllowedByFCrDNS rt clientIP dnsAllowlist = (True, t)"
    using assms(3) by (rule fst_pairE)
  then show ?thesis
    using assms(1,2) nosep
    by (simp add: CertsHandler_def parts Let_def IsNotExist_def
          split: sum.splits)
qed

lemma handler_unauth:
  assumes "Header_Get (Header r) ''Authorization'' \<noteq> ''Bearer '' @ bearerToken"
  shows "CertsHandler bearerToken dnsAllowlist certsBaseDir rt r
           = (http_Error ''Unauthorized'' 401, [])"
  using assms by (simp add: CertsHandler_def)

lemma handler_badaddr:
  assumes "Header_Get (Header r) ''Authorization'' = ''Bearer '' @ bearerToken"
    and "SplitHostPort (RemoteAddr r) = Inl err"
  shows "CertsHandler bearerToken dnsAllowlist certsBaseDir rt r
           = (http_Error ''Forbidden'' 403, [EvLog (LogBadRemoteAddr (RemoteAddr r) err)])"
  using assms by (simp add: CertsHandler_def)

lemma handler_denied:
  assumes "Header_Get (Header r) ''Authorization'' = ''Bearer '' @ bearerToken"
    and "SplitHostPort (RemoteAddr r) = Inr (clientIP, port)"
    and "\<not> fst (isAllowedByFCrDNS rt clientIP dnsAllowlist)"
  shows "CertsHandler bearerToken dnsAllowlist certsBaseDir rt r
           = (http_Error ''Forbidden'' 403,
              snd (isAllowedByFCrDNS rt clientIP dnsAllowlist) @ [EvLog (LogDenied clientIP)])"
proof -
  obtain t where "isAllowedByFCrDNS rt clientIP dnsAllowlist = (False, t)"
    using assms(3) by (cases "isAllowedByFCrDNS rt clientIP dnsAllowlist") auto
  then show ?thesis
    using assms(1,2) by (simp add: CertsHandler_def)
qed

text \<open>Every run of the handler ends in one of five ways.\<close>

lemma handler_cases:
  obtains
    (unauth) "Header_Get (Header r) ''Authorization'' \<noteq> ''Bearer '' @ bearerToken"
  | (badaddr) err where "Header_Get (Header r) ''Authorization'' = ''Bearer '' @ bearerToken"
      and "SplitHostPort (RemoteAddr r) = Inl err"
  | (denied) clientIP port where
      "Header_Get (Header r) ''Authorization'' = ''Bearer '' @ bearerToken"
      and "SplitHostPort (RemoteAddr r) = Inr (clientIP, port)"
      and "\<not> fst (isAllowedByFCrDNS rt clientIP dnsAllowlist)"
  | (unsplit) clientIP port where
      "Header_Get (Header r) ''Authorization'' = ''Bearer '' @ bearerToken"
      and "SplitHostPort (RemoteAddr r) = Inr (clientIP, port)"
      and "fst (isAllowedByFCrDNS rt clientIP dnsAllowlist)"
      and "CHR ''/'' \<notin> set (TrimPrefix (URL_Path r) ''/certs/'')"
  | (split) clientIP port domain fileName where
      "Header_Get (Header r) ''Authorization'' = ''Bearer '' @ bearerToken"
      and "SplitHostPort (RemoteAddr r) = Inr (clientIP, port)"
      and "fst (isAllowedByFCrDNS rt clientIP dnsAllowlist)"
      and "TrimPrefix (URL_Path r) ''/certs/'' = domain @ ''/'' @ fileName"
      and "CHR ''/'' \<notin> set domain"
proof (cases "Header_Get (Header r) ''Authorization'' = ''Bearer '' @ bearerToken")
  case False
  then show ?thesis by (rule unauth)
next
  case auth: True
  show ?thesis
  proof (cases "SplitHostPort (RemoteAddr r)")
    case (Inl err)
    with auth show ?thesis by (rule badaddr)
  next
    case (Inr hp)
    obtain clientIP port where hp: "hp = (clientIP, port)" by (cases hp)
    show ?thesis
    proof (cases "fst (isAllowedByFCrDNS rt clientIP dnsAllowlist)")
      case False
      with auth Inr hp show ?thesis by (auto intro: denied)
    next
      case ok: True
      show ?thesis
      proof (cases "CHR ''/'' \<in> set (TrimPrefix (URL_Path r) ''/certs/'')")
        case False
        with auth Inr hp ok show ?thesis by (auto intro: unsplit)
      next
        case True
        then obtain a b where "TrimPrefix (URL_Path r) ''/certs/'' = a @ ''/'' @ b"
          and "CHR ''/'' \<notin> set a"
          using split_at_first [of "CHR ''/''" "TrimPrefix (URL_Path r) ''/certs/''"] by auto
        with auth Inr hp ok show ?thesis by (auto intro: split)
      qed
    qed
  qed
qed

text \<open>Every file the handler reads is named by a request that passed every check.\<close>

lemma handler_reads:
  assumes "EvReadFile p \<in> set (snd (CertsHandler bearerToken dnsAllowlist certsBaseDir rt r))"
  shows "\<exists>domain fileName.
           TrimPrefix (URL_Path r) ''/certs/'' = domain @ ''/'' @ fileName \<and>
           CHR ''/'' \<notin> set domain \<and> domain \<noteq> [] \<and>
           \<not> Contains domain ''..'' \<and> \<not> Contains domain [CHR 0x5C] \<and>
           allowedCertFiles fileName \<and> p = Join [certsBaseDir, domain, fileName]"
proof (cases rule: handler_cases [where r = r and bearerToken = bearerToken and rt = rt
    and dnsAllowlist = dnsAllowlist])
  case unauth
  then show ?thesis using assms by (simp add: handler_unauth)
next
  case (badaddr err)
  then show ?thesis using assms by (simp add: handler_badaddr)
next
  case (denied clientIP port)
  then show ?thesis
    using assms by (auto simp: handler_denied dest: isAllowedByFCrDNS_events)
next
  case (unsplit clientIP port)
  then show ?thesis
    using assms by (auto simp: handler_unsplit dest: isAllowedByFCrDNS_events)
next
  case (split clientIP port domain fileName)
  have "EvReadFile p \<notin> set (snd (isAllowedByFCrDNS rt clientIP dnsAllowlist))"
    by (auto dest: isAllowedByFCrDNS_events)
  then have "domain \<noteq> [] \<and> \<not> Contains domain ''..'' \<and> \<not> Contains domain [CHR 0x5C] \<and>
      allowedCertFiles fileName \<and> p = Join [certsBaseDir, domain, fileName]"
    using assms
    by (auto simp: handler_split [OF split] Let_def split: if_splits sum.splits)
  with split(4,5) show ?thesis by blast
qed

lemma handler_split_status:
  assumes "Header_Get (Header r) ''Authorization'' = ''Bearer '' @ bearerToken"
    and "SplitHostPort (RemoteAddr r) = Inr (clientIP, port)"
    and "fst (isAllowedByFCrDNS rt clientIP dnsAllowlist)"
    and "TrimPrefix (URL_Path r) ''/certs/'' = domain @ ''/'' @ fileName"
    and "CHR ''/'' \<notin> set domain"
  shows "status (fst (CertsHandler bearerToken dnsAllowlist certsBaseDir rt r)) = 400 \<longleftrightarrow>
     domain = [] \<or> fileName = [] \<or> Contains domain ''..'' \<or> Contains domain [CHR 0x5C]"
  by (simp add: handler_split [OF assms] Let_def http_Error_def split: sum.splits)

lemma handler_split_400:
  assumes "Header_Get (Header r) ''Authorization'' = ''Bearer '' @ bearerToken"
    and "SplitHostPort (RemoteAddr r) = Inr (clientIP, port)"
    and "fst (isAllowedByFCrDNS rt clientIP dnsAllowlist)"
    and "TrimPrefix (URL_Path r) ''/certs/'' = domain @ ''/'' @ fileName"
    and "CHR ''/'' \<notin> set domain"
    and "domain = [] \<or> fileName = [] \<or> Contains domain ''..'' \<or> Contains domain [CHR 0x5C]"
  shows "CertsHandler bearerToken dnsAllowlist certsBaseDir rt r =
     (if domain = [] \<or> fileName = [] then http_Error bad_request_expected 400
      else http_Error ''Bad Request'' 400,
      snd (isAllowedByFCrDNS rt clientIP dnsAllowlist))"
  using assms(6) by (auto simp: handler_split [OF assms(1-5)] Let_def)

lemma handler_split_404:
  assumes "Header_Get (Header r) ''Authorization'' = ''Bearer '' @ bearerToken"
    and "SplitHostPort (RemoteAddr r) = Inr (clientIP, port)"
    and "fst (isAllowedByFCrDNS rt clientIP dnsAllowlist)"
    and "TrimPrefix (URL_Path r) ''/certs/'' = domain @ ''/'' @ fileName"
    and "CHR ''/'' \<notin> set domain"
    and "domain \<noteq> []" and "fileName \<noteq> []"
    and "\<not> Contains domain ''..''" and "\<not> Contains domain [CHR 0x5C]"
    and "\<not> allowedCertFiles fileName"
  shows "CertsHandler bearerToken dnsAllowlist certsBaseDir rt r =
     (http_Error ''Not Found'' 404, snd (isAllowedByFCrDNS rt clientIP dnsAllowlist))"
  using assms(6-10) by (simp add: handler_split [OF assms(1-5)] Let_def)

lemma handler_split_read:
  assumes "Header_Get (Header r) ''Authorization'' = ''Bearer '' @ bearerToken"
    and "SplitHostPort (RemoteAddr r) = Inr (clientIP, port)"
    and "fst (isAllowedByFCrDNS rt clientIP dnsAllowlist)"
    and "TrimPrefix (URL_Path r) ''/certs/'' = domain @ ''/'' @ fileName"
    and "CHR ''/'' \<notin> set domain"
    and "domain \<noteq> []"
    and "\<not> Contains domain ''..''" and "\<not> Contains domain [CHR 0x5C]"
    and "allowedCertFiles fileName"
  shows "CertsHandler bearerToken dnsAllowlist certsBaseDir rt r =
     (let t = snd (isAllowedByFCrDNS rt clientIP dnsAllowlist);
          certPath = Join [certsBaseDir, domain, fileName]
      in case ReadFile rt certPath of
           Inl err \<Rightarrow>
             if err = ErrNotExist
             then (http_Error ''Not Found'' 404, t @ [EvReadFile certPath])
             else (http_Error ''Internal Server Error'' 500,
                   t @ [EvReadFile certPath, EvLog (LogReadFailed certPath err)])
         | Inr data \<Rightarrow>
             (\<lparr>status = 200, content_type = ''application/x-pem-file'', body = data\<rparr>,
              t @ [EvReadFile certPath, EvLog (LogServed certPath clientIP)]))"
proof -
  have "fileName \<noteq> []"
    using assms(9) by (auto simp: allowedCertFiles_iff)
  then show ?thesis
    using assms(6-9) by (simp add: handler_split [OF assms(1-5)] Let_def)
qed

text \<open>The statuses the handler can answer with, and what two of them presuppose.\<close>

lemma handler_status_cases:
  "status (fst (CertsHandler bearerToken dnsAllowlist certsBaseDir rt r))
     \<in> {200, 400, 401, 403, 404, 500}
   \<and> (status (fst (CertsHandler bearerToken dnsAllowlist certsBaseDir rt r)) \<notin> {401, 403} \<longrightarrow>
        (\<exists>clientIP port. SplitHostPort (RemoteAddr r) = Inr (clientIP, port) \<and>
           fst (isAllowedByFCrDNS rt clientIP dnsAllowlist)))
   \<and> (status (fst (CertsHandler bearerToken dnsAllowlist certsBaseDir rt r)) = 500 \<longrightarrow>
        (\<exists>p e. ReadFile rt p = Inl (ErrOther e)))"
proof (cases rule: handler_cases [where r = r and bearerToken = bearerToken and rt = rt
      and dnsAllowlist = dnsAllowlist])
  case unauth
  then show ?thesis by (simp add: handler_unauth http_Error_def)
next
  case (badaddr err)
  then show ?thesis by (simp add: handler_badaddr http_Error_def)
next
  case (denied clientIP port)
  then show ?thesis by (simp add: handler_denied http_Error_def)
next
  case (unsplit clientIP port)
  then show ?thesis by (simp add: handler_unsplit http_Error_def)
next
  case (split clientIP port domain fileName)
  have ok: "\<exists>clientIP port. SplitHostPort (RemoteAddr r) = Inr (clientIP, port) \<and>
           fst (isAllowedByFCrDNS rt clientIP dnsAllowlist)"
    using split(2,3) by blast
  have "status (fst (CertsHandler bearerToken dnsAllowlist certsBaseDir rt r))
     \<in> {200, 400, 401, 403, 404, 500}
   \<and> (status (fst (CertsHandler bearerToken dnsAllowlist certsBaseDir rt r)) = 500 \<longrightarrow>
        (\<exists>p e. ReadFile rt p = Inl (ErrOther e)))"
  proof (cases "ReadFile rt (Join [certsBaseDir, domain, fileName])")
    case (Inl err)
    then show ?thesis
      by (cases err) (auto simp: handler_split [OF split] Let_def http_Error_def)
  next
    case (Inr data)
    then show ?thesis
      by (auto simp: handler_split [OF split] Let_def http_Error_def)
  qed
  with ok show ?thesis by blast
qed

section \<open>The bearer gate\<close>

text \<open>
  C3. A request whose \<open>Authorization\<close> value is not exactly \<open>Bearer\<close>, a space and
  the configured secret is answered 401 whatever its path and peer address and
  whatever the resolver and the file system would say; so is a request without the
  header. Nothing is looked up, read or logged before that answer.
\<close>

theorem bearer_gate_rejects_first:
  "(Header_Get (Header r) ''Authorization'' \<noteq> ''Bearer '' @ bearerToken \<longrightarrow>
      CertsHandler bearerToken dnsAllowlist certsBaseDir rt r
        = (http_Error ''Unauthorized'' 401, []))
   \<and> (Header r ''Authorization'' = [] \<longrightarrow>
      CertsHandler bearerToken dnsAllowlist certsBaseDir rt r
        = (http_Error ''Unauthorized'' 401, []))"
  by (simp add: CertsHandler_def Header_Get_def)

theorem bearer_gate_rejects_first_witness:
  "Header_Get (Header (req_A ''GET'' [''Bearer wrong''] ''/certs/example.org/fullchain.pem''))
       ''Authorization'' \<noteq> ''Bearer '' @ ''s3cret''
   \<and> CertsHandler ''s3cret'' [''client.example.com''] ''/etc/letsencrypt/live''
         (rt_A [''203.0.113.5''] (Inr ''PEM''))
         (req_A ''GET'' [''Bearer wrong''] ''/certs/example.org/fullchain.pem'')
       = (http_Error ''Unauthorized'' 401, [])
   \<and> Header (req_A ''GET'' [] ''/certs/example.org/fullchain.pem'') ''Authorization'' = []
   \<and> status (fst (CertsHandler ''s3cret'' [''client.example.com''] ''/etc/letsencrypt/live''
         (rt_A [''203.0.113.5''] (Inr ''PEM''))
         (req_A ''GET'' [] ''/certs/example.org/fullchain.pem''))) = 401"
  using
    bearer_gate_rejects_first [of
      "req_A ''GET'' [''Bearer wrong''] ''/certs/example.org/fullchain.pem''" "''s3cret''"
      "[''client.example.com'']" "''/etc/letsencrypt/live''"
      "rt_A [''203.0.113.5''] (Inr ''PEM'')"]
    bearer_gate_rejects_first [of
      "req_A ''GET'' [] ''/certs/example.org/fullchain.pem''" "''s3cret''"
      "[''client.example.com'']" "''/etc/letsencrypt/live''"
      "rt_A [''203.0.113.5''] (Inr ''PEM'')"]
  by (simp add: req_A_def sample_req_def Header_Get_def http_Error_def)

section \<open>The request method\<close>

text \<open>
  C9. Two requests with the same headers, peer address and path get the same answer
  and cause the same lookups and reads, whatever their methods: the handler never
  reads \<open>r.Method\<close>, so a POST or DELETE is gated and served as a GET is.
\<close>

theorem method_is_ignored:
  assumes "Header r1 = Header r2"
    and "RemoteAddr r1 = RemoteAddr r2"
    and "URL_Path r1 = URL_Path r2"
  shows "CertsHandler bearerToken dnsAllowlist certsBaseDir rt r1
           = CertsHandler bearerToken dnsAllowlist certsBaseDir rt r2"
  unfolding CertsHandler_def by (simp only: assms)

theorem method_is_ignored_witness:
  "Method (req_A ''GET'' [''Bearer s3cret''] ''/certs/example.org/fullchain.pem'')
     \<noteq> Method (req_A ''DELETE'' [''Bearer s3cret''] ''/certs/example.org/fullchain.pem'')
   \<and> CertsHandler ''s3cret'' [''client.example.com''] ''/etc/letsencrypt/live''
         (rt_A [''203.0.113.5''] (Inr ''PEM''))
         (req_A ''GET'' [''Bearer s3cret''] ''/certs/example.org/fullchain.pem'')
     = CertsHandler ''s3cret'' [''client.example.com''] ''/etc/letsencrypt/live''
         (rt_A [''203.0.113.5''] (Inr ''PEM''))
         (req_A ''DELETE'' [''Bearer s3cret''] ''/certs/example.org/fullchain.pem'')
   \<and> status (fst (CertsHandler ''s3cret'' [''client.example.com''] ''/etc/letsencrypt/live''
         (rt_A [''203.0.113.5''] (Inr ''PEM''))
         (req_A ''DELETE'' [''Bearer s3cret''] ''/certs/example.org/fullchain.pem''))) = 200"
proof -
  have served: "status (fst (CertsHandler ''s3cret'' [''client.example.com'']
      ''/etc/letsencrypt/live'' (rt_A [''203.0.113.5''] (Inr ''PEM''))
      (req_A ''DELETE'' [''Bearer s3cret''] ''/certs/example.org/fullchain.pem''))) = 200"
    by code_simp
  have same: "CertsHandler ''s3cret'' [''client.example.com''] ''/etc/letsencrypt/live''
         (rt_A [''203.0.113.5''] (Inr ''PEM''))
         (req_A ''GET'' [''Bearer s3cret''] ''/certs/example.org/fullchain.pem'')
     = CertsHandler ''s3cret'' [''client.example.com''] ''/etc/letsencrypt/live''
         (rt_A [''203.0.113.5''] (Inr ''PEM''))
         (req_A ''DELETE'' [''Bearer s3cret''] ''/certs/example.org/fullchain.pem'')"
    by (rule method_is_ignored) (simp_all add: req_A_def sample_req_def)
  show ?thesis
    using served same by (simp add: req_A_def sample_req_def)
qed

section \<open>The path validator\<close>

text \<open>
  C4. For a request that passed the bearer gate and the FCrDNS check, the answer is
  400 exactly when the path after \<open>/certs/\<close> does not split at its first separator
  into two non-empty segments, or the domain segment contains \<open>..\<close>, a slash or a
  backslash. A 400 answer is the same whatever the file system holds: no directory is
  consulted for it.
\<close>

theorem path_validator_400_iff:
  assumes auth: "Header_Get (Header r) ''Authorization'' = ''Bearer '' @ bearerToken"
    and peer: "SplitHostPort (RemoteAddr r) = Inr (clientIP, port)"
    and fcr: "fst (isAllowedByFCrDNS rt clientIP dnsAllowlist)"
  shows "(status (fst (CertsHandler bearerToken dnsAllowlist certsBaseDir rt r)) = 400 \<longleftrightarrow>
            \<not> (\<exists>domain fileName.
                 TrimPrefix (URL_Path r) ''/certs/'' = domain @ ''/'' @ fileName \<and>
                 CHR ''/'' \<notin> set domain \<and> domain \<noteq> [] \<and> fileName \<noteq> [])
            \<or> (\<exists>domain fileName.
                 TrimPrefix (URL_Path r) ''/certs/'' = domain @ ''/'' @ fileName \<and>
                 CHR ''/'' \<notin> set domain \<and>
                 (Contains domain ''..'' \<or> Contains domain ''/'' \<or> Contains domain [CHR 0x5C])))
       \<and> (status (fst (CertsHandler bearerToken dnsAllowlist certsBaseDir rt r)) = 400 \<longrightarrow>
            CertsHandler bearerToken dnsAllowlist certsBaseDir (rt\<lparr>ReadFile := fs\<rparr>) r
              = CertsHandler bearerToken dnsAllowlist certsBaseDir rt r)"
proof (cases "CHR ''/'' \<in> set (TrimPrefix (URL_Path r) ''/certs/'')")
  case False
  have fcr': "fst (isAllowedByFCrDNS (rt\<lparr>ReadFile := fs\<rparr>) clientIP dnsAllowlist)"
    using fcr by simp
  have none: "\<not> (\<exists>domain fileName.
      TrimPrefix (URL_Path r) ''/certs/'' = domain @ ''/'' @ fileName)"
    using False by auto
  show ?thesis
    using none
    by (simp add: handler_unsplit [OF auth peer fcr False]
        handler_unsplit [OF auth peer fcr' False] http_Error_def)
next
  case True
  then obtain a b where ab: "TrimPrefix (URL_Path r) ''/certs/'' = a @ ''/'' @ b"
    and a: "CHR ''/'' \<notin> set a"
    using split_at_first [of "CHR ''/''" "TrimPrefix (URL_Path r) ''/certs/''"] by auto
  have fcr': "fst (isAllowedByFCrDNS (rt\<lparr>ReadFile := fs\<rparr>) clientIP dnsAllowlist)"
    using fcr by simp
  have uniq: "d = a \<and> f = b"
    if "TrimPrefix (URL_Path r) ''/certs/'' = d @ ''/'' @ f" and "CHR ''/'' \<notin> set d" for d f
    using that ab a first_split_unique [of d "CHR ''/''" f a b] by simp
  let ?bad = "a = [] \<or> b = [] \<or> Contains a ''..'' \<or> Contains a [CHR 0x5C]"
  have nosep: "\<not> Contains a ''/''"
    using a by (simp add: Contains_single)
  have rhs: "(\<not> (\<exists>domain fileName.
                 TrimPrefix (URL_Path r) ''/certs/'' = domain @ ''/'' @ fileName \<and>
                 CHR ''/'' \<notin> set domain \<and> domain \<noteq> [] \<and> fileName \<noteq> [])
            \<or> (\<exists>domain fileName.
                 TrimPrefix (URL_Path r) ''/certs/'' = domain @ ''/'' @ fileName \<and>
                 CHR ''/'' \<notin> set domain \<and>
                 (Contains domain ''..'' \<or> Contains domain ''/'' \<or> Contains domain [CHR 0x5C])))
         \<longleftrightarrow> ?bad"
    using uniq ab a nosep by blast
  have st: "status (fst (CertsHandler bearerToken dnsAllowlist certsBaseDir rt r)) = 400 \<longleftrightarrow> ?bad"
    by (rule handler_split_status [OF auth peer fcr ab a])
  have same: "CertsHandler bearerToken dnsAllowlist certsBaseDir (rt\<lparr>ReadFile := fs\<rparr>) r
              = CertsHandler bearerToken dnsAllowlist certsBaseDir rt r" if ?bad
    using that
    by (simp add: handler_split_400 [OF auth peer fcr ab a]
        handler_split_400 [OF auth peer fcr' ab a])
  show ?thesis
    using rhs st same by blast
qed


theorem path_validator_400_iff_witness:
  "status (fst (CertsHandler ''s3cret'' [''client.example.com''] ''/etc/letsencrypt/live''
       (rt_A [''203.0.113.5''] (Inr ''PEM''))
       (req_A ''GET'' [''Bearer s3cret''] ''/certs/../etc/passwd/fullchain.pem''))) = 400
   \<and> CertsHandler ''s3cret'' [''client.example.com''] ''/etc/letsencrypt/live''
       ((rt_A [''203.0.113.5''] (Inr ''PEM''))\<lparr>ReadFile := (\<lambda>p. Inr ''found'')\<rparr>)
       (req_A ''GET'' [''Bearer s3cret''] ''/certs/../etc/passwd/fullchain.pem'')
     = CertsHandler ''s3cret'' [''client.example.com''] ''/etc/letsencrypt/live''
       (rt_A [''203.0.113.5''] (Inr ''PEM''))
       (req_A ''GET'' [''Bearer s3cret''] ''/certs/../etc/passwd/fullchain.pem'')
   \<and> status (fst (CertsHandler ''s3cret'' [''client.example.com''] ''/etc/letsencrypt/live''
       (rt_A [''203.0.113.5''] (Inr ''PEM''))
       (req_A ''GET'' [''Bearer s3cret''] ''/certs/example.org/fullchain.pem''))) = 200
   \<and> (\<exists>domain fileName.
         TrimPrefix (URL_Path (req_A ''GET'' [''Bearer s3cret''] ''/certs/example.org/fullchain.pem''))
           ''/certs/'' = domain @ ''/'' @ fileName \<and>
         CHR ''/'' \<notin> set domain \<and> domain \<noteq> [] \<and> fileName \<noteq> [])"
proof -
  let ?rt = "rt_A [''203.0.113.5''] (Inr ''PEM'')"
  let ?bad = "req_A ''GET'' [''Bearer s3cret''] ''/certs/../etc/passwd/fullchain.pem''"
  let ?good = "req_A ''GET'' [''Bearer s3cret''] ''/certs/example.org/fullchain.pem''"
  have auth_bad: "Header_Get (Header ?bad) ''Authorization'' = ''Bearer '' @ ''s3cret''"
    by code_simp
  have peer_bad: "SplitHostPort (RemoteAddr ?bad) = Inr (''203.0.113.5'', ''40000'')"
    by code_simp
  have auth_good: "Header_Get (Header ?good) ''Authorization'' = ''Bearer '' @ ''s3cret''"
    by code_simp
  have peer_good: "SplitHostPort (RemoteAddr ?good) = Inr (''203.0.113.5'', ''40000'')"
    by code_simp
  have fcr: "fst (isAllowedByFCrDNS ?rt ''203.0.113.5'' [''client.example.com''])"
    by code_simp
  have s400: "status (fst (CertsHandler ''s3cret'' [''client.example.com'']
      ''/etc/letsencrypt/live'' ?rt ?bad)) = 400"
    by code_simp
  have s200: "status (fst (CertsHandler ''s3cret'' [''client.example.com'']
      ''/etc/letsencrypt/live'' ?rt ?good)) = 200"
    by code_simp
  show ?thesis
    using s400 s200
      path_validator_400_iff [OF auth_bad peer_bad fcr, of "''/etc/letsencrypt/live''"
        "\<lambda>p. Inr ''found''"]
      path_validator_400_iff [OF auth_good peer_good fcr, of "''/etc/letsencrypt/live''"
        "\<lambda>p. Inr ''found''"]
    by auto
qed

text \<open>
  C5. Where the request has passed the stages before the file-name check (bearer
  token, FCrDNS, a path cut at its first separator into two non-empty segments, a
  domain without \<open>..\<close> or backslash), a file-name segment outside the four allowed
  names is answered 404 Not Found, not 400. For any request with such a file-name
  segment, no file is read, the answer is the same whatever the file system holds, and
  the status is one of 400, 401, 403 and 404: an earlier stage may answer first.
\<close>

theorem disallowed_file_name_404:
  assumes cut: "TrimPrefix (URL_Path r) ''/certs/'' = domain @ ''/'' @ fileName"
    and dom: "CHR ''/'' \<notin> set domain"
    and name: "\<not> allowedCertFiles fileName"
  shows "(\<forall>p. EvReadFile p \<notin> set (snd (CertsHandler bearerToken dnsAllowlist certsBaseDir rt r)))
    \<and> status (fst (CertsHandler bearerToken dnsAllowlist certsBaseDir rt r)) \<in> {400, 401, 403, 404}
    \<and> CertsHandler bearerToken dnsAllowlist certsBaseDir (rt\<lparr>ReadFile := fs\<rparr>) r
        = CertsHandler bearerToken dnsAllowlist certsBaseDir rt r
    \<and> (Header_Get (Header r) ''Authorization'' = ''Bearer '' @ bearerToken \<and>
        SplitHostPort (RemoteAddr r) = Inr (clientIP, port) \<and>
        fst (isAllowedByFCrDNS rt clientIP dnsAllowlist) \<and>
        domain \<noteq> [] \<and> fileName \<noteq> [] \<and>
        \<not> Contains domain ''..'' \<and> \<not> Contains domain [CHR 0x5C] \<longrightarrow>
          fst (CertsHandler bearerToken dnsAllowlist certsBaseDir rt r)
            = http_Error ''Not Found'' 404
          \<and> status (fst (CertsHandler bearerToken dnsAllowlist certsBaseDir rt r)) = 404
          \<and> body (fst (CertsHandler bearerToken dnsAllowlist certsBaseDir rt r))
              = ''Not Found'' @ [CHR 0x0A])"
proof -
  let ?H = "CertsHandler bearerToken dnsAllowlist certsBaseDir rt r"
  let ?H' = "CertsHandler bearerToken dnsAllowlist certsBaseDir (rt\<lparr>ReadFile := fs\<rparr>) r"
  have noread: "\<forall>p. EvReadFile p \<notin> set (snd ?H)"
  proof (intro allI notI)
    fix p
    assume "EvReadFile p \<in> set (snd ?H)"
    then obtain d f where "TrimPrefix (URL_Path r) ''/certs/'' = d @ ''/'' @ f"
      and "CHR ''/'' \<notin> set d" and "allowedCertFiles f"
      using handler_reads by blast
    then show False
      using cut dom name first_split_unique [of d "CHR ''/''" f domain fileName] by simp
  qed
  have rest: "status (fst ?H) \<in> {400, 401, 403, 404} \<and> ?H' = ?H"
  proof (cases rule: handler_cases [where r = r and bearerToken = bearerToken and rt = rt
      and dnsAllowlist = dnsAllowlist])
    case unauth
    then show ?thesis by (simp add: handler_unauth http_Error_def)
  next
    case (badaddr err)
    then show ?thesis by (simp add: handler_badaddr http_Error_def)
  next
    case (denied ip pt)
    then have "\<not> fst (isAllowedByFCrDNS (rt\<lparr>ReadFile := fs\<rparr>) ip dnsAllowlist)"
      by simp
    then show ?thesis
      using denied
      by (simp add: handler_denied [OF denied]
          handler_denied [OF denied(1,2), of "rt\<lparr>ReadFile := fs\<rparr>"] http_Error_def)
  next
    case (unsplit ip pt)
    then show ?thesis using cut by simp
  next
    case (split ip pt d f)
    have df: "d = domain \<and> f = fileName"
      using split(4,5) cut dom first_split_unique [of d "CHR ''/''" f domain fileName] by simp
    have fcr': "fst (isAllowedByFCrDNS (rt\<lparr>ReadFile := fs\<rparr>) ip dnsAllowlist)"
      using split(3) by simp
    show ?thesis
    proof (cases "domain = [] \<or> fileName = [] \<or> Contains domain ''..''
        \<or> Contains domain [CHR 0x5C]")
      case True
      then show ?thesis
        using df
        by (simp add: handler_split_400 [OF split(1,2,3) cut dom True]
            handler_split_400 [OF split(1,2) fcr' cut dom True] http_Error_def)
    next
      case False
      then have v: "domain \<noteq> []" "fileName \<noteq> []" "\<not> Contains domain ''..''"
        "\<not> Contains domain [CHR 0x5C]"
        by auto
      show ?thesis
        by (simp add: handler_split_404 [OF split(1,2,3) cut dom v name]
            handler_split_404 [OF split(1,2) fcr' cut dom v name] http_Error_def)
    qed
  qed
  have last: "fst ?H = http_Error ''Not Found'' 404 \<and> status (fst ?H) = 404
      \<and> body (fst ?H) = ''Not Found'' @ [CHR 0x0A]"
    if "Header_Get (Header r) ''Authorization'' = ''Bearer '' @ bearerToken"
      and "SplitHostPort (RemoteAddr r) = Inr (clientIP, port)"
      and "fst (isAllowedByFCrDNS rt clientIP dnsAllowlist)"
      and "domain \<noteq> []" and "fileName \<noteq> []"
      and "\<not> Contains domain ''..''" and "\<not> Contains domain [CHR 0x5C]"
    using handler_split_404 [OF that(1,2,3) cut dom that(4-7) name]
    by (simp add: http_Error_def)
  show ?thesis
    using noread rest last by blast
qed

theorem disallowed_file_name_404_witness:
  "CHR ''/'' \<notin> set ''example.org'' \<and> \<not> allowedCertFiles ''secret.txt''
   \<and> fst (CertsHandler ''s3cret'' [''client.example.com''] ''/etc/letsencrypt/live''
         (rt_A [''203.0.113.5''] (Inr ''PEM''))
         (req_A ''GET'' [''Bearer s3cret''] ''/certs/example.org/secret.txt''))
       = http_Error ''Not Found'' 404
   \<and> status (fst (CertsHandler ''s3cret'' [''client.example.com''] ''/etc/letsencrypt/live''
         (rt_A [''203.0.113.5''] (Inr ''PEM''))
         (req_A ''GET'' [''Bearer s3cret''] ''/certs/example.org/secret.txt''))) = 404
   \<and> CertsHandler ''s3cret'' [''client.example.com''] ''/etc/letsencrypt/live''
         ((rt_A [''203.0.113.5''] (Inr ''PEM''))\<lparr>ReadFile := (\<lambda>p. Inr ''found'')\<rparr>)
         (req_A ''GET'' [''Bearer s3cret''] ''/certs/example.org/secret.txt'')
       = CertsHandler ''s3cret'' [''client.example.com''] ''/etc/letsencrypt/live''
         (rt_A [''203.0.113.5''] (Inr ''PEM''))
         (req_A ''GET'' [''Bearer s3cret''] ''/certs/example.org/secret.txt'')
   \<and> EvReadFile ''/etc/letsencrypt/live/example.org/secret.txt''
         \<notin> set (snd (CertsHandler ''s3cret'' [''client.example.com''] ''/etc/letsencrypt/live''
         (rt_A [''203.0.113.5''] (Inr ''PEM''))
         (req_A ''GET'' [''Bearer s3cret''] ''/certs/example.org/secret.txt'')))"
proof -
  let ?rt = "rt_A [''203.0.113.5''] (Inr ''PEM'')"
  let ?r = "req_A ''GET'' [''Bearer s3cret''] ''/certs/example.org/secret.txt''"
  have cut: "TrimPrefix (URL_Path ?r) ''/certs/'' = ''example.org'' @ ''/'' @ ''secret.txt''"
    by code_simp
  have dom: "CHR ''/'' \<notin> set ''example.org''"
    by simp
  have name: "\<not> allowedCertFiles ''secret.txt''"
    by code_simp
  have auth: "Header_Get (Header ?r) ''Authorization'' = ''Bearer '' @ ''s3cret''"
    by code_simp
  have peer: "SplitHostPort (RemoteAddr ?r) = Inr (''203.0.113.5'', ''40000'')"
    by code_simp
  have fcr: "fst (isAllowedByFCrDNS ?rt ''203.0.113.5'' [''client.example.com''])"
    by code_simp
  have d1: "\<not> Contains ''example.org'' ''..''"
    by code_simp
  have d2: "\<not> Contains ''example.org'' [CHR 0x5C]"
    by code_simp
  note T = disallowed_file_name_404 [OF cut dom name, where bearerToken = "''s3cret''"
      and dnsAllowlist = "[''client.example.com'']" and certsBaseDir = "''/etc/letsencrypt/live''"
      and rt = ?rt and fs = "\<lambda>p. Inr ''found''" and clientIP = "''203.0.113.5''"
      and port = "''40000''"]
  have noread: "EvReadFile ''/etc/letsencrypt/live/example.org/secret.txt''
      \<notin> set (snd (CertsHandler ''s3cret'' [''client.example.com''] ''/etc/letsencrypt/live''
            ?rt ?r))"
    using T by blast
  have same: "CertsHandler ''s3cret'' [''client.example.com''] ''/etc/letsencrypt/live''
        (?rt\<lparr>ReadFile := (\<lambda>p. Inr ''found'')\<rparr>) ?r
      = CertsHandler ''s3cret'' [''client.example.com''] ''/etc/letsencrypt/live'' ?rt ?r"
    using T by blast
  have ne: "''example.org'' \<noteq> []" "''secret.txt'' \<noteq> []"
    by simp_all
  have answer: "fst (CertsHandler ''s3cret'' [''client.example.com''] ''/etc/letsencrypt/live''
        ?rt ?r) = http_Error ''Not Found'' 404
      \<and> status (fst (CertsHandler ''s3cret'' [''client.example.com'']
          ''/etc/letsencrypt/live'' ?rt ?r)) = 404"
    using T auth peer fcr ne d1 d2 by blast
  show ?thesis
    using dom name answer same noread by blast
qed

text \<open>
  Without those stages the answer to a disallowed file name can be 400: the domain
  check comes first, and an empty file-name segment is a malformed path.
\<close>

theorem disallowed_file_name_404_counterexample:
  "\<not> allowedCertFiles ''secret.txt''
   \<and> status (fst (CertsHandler ''s3cret'' [''client.example.com''] ''/etc/letsencrypt/live''
         (rt_A [''203.0.113.5''] (Inr ''PEM''))
         (req_A ''GET'' [''Bearer s3cret''] ''/certs/a..b/secret.txt''))) = 400
   \<and> SplitN2 (TrimPrefix ''/certs/a..b/secret.txt'' ''/certs/'') (CHR ''/'')
       = [''a..b'', ''secret.txt'']
   \<and> \<not> allowedCertFiles []
   \<and> status (fst (CertsHandler ''s3cret'' [''client.example.com''] ''/etc/letsencrypt/live''
         (rt_A [''203.0.113.5''] (Inr ''PEM''))
         (req_A ''GET'' [''Bearer s3cret''] ''/certs/example.org/''))) = 400
   \<and> SplitN2 (TrimPrefix ''/certs/example.org/'' ''/certs/'') (CHR ''/'') = [''example.org'', []]"
  by code_simp

section \<open>The file server\<close>

lemma rel_path_ends: "\<exists>x. rel_path domain fileName = x @ fileName"
  by (simp add: rel_path_def)

lemma contains_no_cert_name:
  assumes "allowedCertFiles fileName"
  shows "\<not> Contains (''Internal Server Error'' @ [CHR 0x0A]) fileName"
proof -
  have "\<not> Contains (''Internal Server Error'' @ [CHR 0x0A]) ''fullchain.pem''"
    "\<not> Contains (''Internal Server Error'' @ [CHR 0x0A]) ''privkey.pem''"
    "\<not> Contains (''Internal Server Error'' @ [CHR 0x0A]) ''cert.pem''"
    "\<not> Contains (''Internal Server Error'' @ [CHR 0x0A]) ''chain.pem''"
    by code_simp+
  then show ?thesis
    using assms by (auto simp: allowedCertFiles_iff)
qed

lemma validated_domain:
  assumes "\<not> Contains domain ''..''" and "\<not> Contains domain ''/''"
  shows "CHR ''/'' \<notin> set domain \<and> domain \<noteq> ''..''"
  using assms Contains_self [of "''..''"] by (auto simp: Contains_single)

lemma error_body_has_no_path:
  assumes "CHR ''/'' \<notin> set domain" and "\<not> Contains domain ''..''"
    and "allowedCertFiles fileName"
  shows "\<not> Contains (body (http_Error ''Internal Server Error'' 500))
           (Join [certsBaseDir, domain, fileName])"
proof
  assume c: "Contains (body (http_Error ''Internal Server Error'' 500))
           (Join [certsBaseDir, domain, fileName])"
  have d: "domain \<noteq> ''..''"
    using assms(2) Contains_self [of "''..''"] by auto
  obtain x where x: "rel_path domain fileName = x @ fileName"
    using rel_path_ends by blast
  have "Join [certsBaseDir, domain, fileName]
      = (dir_prefix (Clean certsBaseDir) @ x) @ fileName"
    using Join_validated [OF assms(1) d] allowed_name_plain [OF assms(3)] x by simp
  then have "Contains (''Internal Server Error'' @ [CHR 0x0A]) fileName"
    using c Contains_suffix [of "''Internal Server Error'' @ [CHR 0x0A]"
        "dir_prefix (Clean certsBaseDir) @ x" fileName]
    by (simp add: http_Error_def)
  then show False
    using contains_no_cert_name [OF assms(3)] by simp
qed

text \<open>
  C6. For a request that passed every check, a read that fails because the file does
  not exist is answered 404; a read that fails for any other reason is answered 500
  with the fixed body \<open>Internal Server Error\<close>, in which the path of the file does not
  occur, and the path and the error go to the log.
\<close>

theorem read_failures_404_500:
  assumes auth: "Header_Get (Header r) ''Authorization'' = ''Bearer '' @ bearerToken"
    and peer: "SplitHostPort (RemoteAddr r) = Inr (clientIP, port)"
    and fcr: "fst (isAllowedByFCrDNS rt clientIP dnsAllowlist)"
    and cut: "TrimPrefix (URL_Path r) ''/certs/'' = domain @ ''/'' @ fileName"
    and dom: "CHR ''/'' \<notin> set domain" "domain \<noteq> []"
      "\<not> Contains domain ''..''" "\<not> Contains domain [CHR 0x5C]"
    and name: "allowedCertFiles fileName"
  shows "(ReadFile rt (Join [certsBaseDir, domain, fileName]) = Inl ErrNotExist \<longrightarrow>
            fst (CertsHandler bearerToken dnsAllowlist certsBaseDir rt r)
              = http_Error ''Not Found'' 404
          \<and> status (fst (CertsHandler bearerToken dnsAllowlist certsBaseDir rt r)) = 404
          \<and> body (fst (CertsHandler bearerToken dnsAllowlist certsBaseDir rt r))
              = ''Not Found'' @ [CHR 0x0A])
    \<and> (ReadFile rt (Join [certsBaseDir, domain, fileName]) = Inl (ErrOther e) \<longrightarrow>
            fst (CertsHandler bearerToken dnsAllowlist certsBaseDir rt r)
              = http_Error ''Internal Server Error'' 500
          \<and> status (fst (CertsHandler bearerToken dnsAllowlist certsBaseDir rt r)) = 500
          \<and> body (fst (CertsHandler bearerToken dnsAllowlist certsBaseDir rt r))
              = ''Internal Server Error'' @ [CHR 0x0A]
          \<and> content_type (fst (CertsHandler bearerToken dnsAllowlist certsBaseDir rt r))
              = ''text/plain; charset=utf-8''
          \<and> \<not> Contains (body (fst (CertsHandler bearerToken dnsAllowlist certsBaseDir rt r)))
                (Join [certsBaseDir, domain, fileName])
          \<and> EvLog (LogReadFailed (Join [certsBaseDir, domain, fileName]) (ErrOther e))
                \<in> set (snd (CertsHandler bearerToken dnsAllowlist certsBaseDir rt r)))"
proof -
  note H = handler_split_read [OF auth peer fcr cut dom name, of certsBaseDir]
  have nopath: "\<not> Contains (body (http_Error ''Internal Server Error'' 500))
           (Join [certsBaseDir, domain, fileName])"
    by (rule error_body_has_no_path [OF dom(1) dom(3) name])
  have gone: "fst (CertsHandler bearerToken dnsAllowlist certsBaseDir rt r)
      = http_Error ''Not Found'' 404"
    if "ReadFile rt (Join [certsBaseDir, domain, fileName]) = Inl ErrNotExist"
    using that by (simp add: H Let_def)
  have broken: "fst (CertsHandler bearerToken dnsAllowlist certsBaseDir rt r)
        = http_Error ''Internal Server Error'' 500
      \<and> EvLog (LogReadFailed (Join [certsBaseDir, domain, fileName]) (ErrOther e))
          \<in> set (snd (CertsHandler bearerToken dnsAllowlist certsBaseDir rt r))"
    if "ReadFile rt (Join [certsBaseDir, domain, fileName]) = Inl (ErrOther e)"
    using that by (simp add: H Let_def)
  have s404: "status (http_Error ''Not Found'' 404) = 404"
    "body (http_Error ''Not Found'' 404) = ''Not Found'' @ [CHR 0x0A]"
    by (simp_all add: http_Error_def)
  have s500: "status (http_Error ''Internal Server Error'' 500) = 500"
    "body (http_Error ''Internal Server Error'' 500) = ''Internal Server Error'' @ [CHR 0x0A]"
    "content_type (http_Error ''Internal Server Error'' 500) = ''text/plain; charset=utf-8''"
    by (simp_all add: http_Error_def)
  show ?thesis
  proof (intro conjI impI)
    assume a: "ReadFile rt (Join [certsBaseDir, domain, fileName]) = Inl ErrNotExist"
    show "fst (CertsHandler bearerToken dnsAllowlist certsBaseDir rt r)
        = http_Error ''Not Found'' 404"
      by (rule gone [OF a])
    show "status (fst (CertsHandler bearerToken dnsAllowlist certsBaseDir rt r)) = 404"
      unfolding gone [OF a] by (rule s404)
    show "body (fst (CertsHandler bearerToken dnsAllowlist certsBaseDir rt r))
        = ''Not Found'' @ [CHR 0x0A]"
      unfolding gone [OF a] by (rule s404)
  next
    assume b: "ReadFile rt (Join [certsBaseDir, domain, fileName]) = Inl (ErrOther e)"
    note eq = conjunct1 [OF broken [OF b]]
    show "fst (CertsHandler bearerToken dnsAllowlist certsBaseDir rt r)
        = http_Error ''Internal Server Error'' 500"
      by (rule eq)
    show "status (fst (CertsHandler bearerToken dnsAllowlist certsBaseDir rt r)) = 500"
      unfolding eq by (rule s500)
    show "body (fst (CertsHandler bearerToken dnsAllowlist certsBaseDir rt r))
        = ''Internal Server Error'' @ [CHR 0x0A]"
      unfolding eq by (rule s500)
    show "content_type (fst (CertsHandler bearerToken dnsAllowlist certsBaseDir rt r))
        = ''text/plain; charset=utf-8''"
      unfolding eq by (rule s500)
    show "\<not> Contains (body (fst (CertsHandler bearerToken dnsAllowlist certsBaseDir rt r)))
        (Join [certsBaseDir, domain, fileName])"
      unfolding eq by (rule nopath)
    show "EvLog (LogReadFailed (Join [certsBaseDir, domain, fileName]) (ErrOther e))
        \<in> set (snd (CertsHandler bearerToken dnsAllowlist certsBaseDir rt r))"
      by (rule conjunct2 [OF broken [OF b]])
  qed
qed

theorem read_failures_404_500_witness:
  "status (fst (CertsHandler ''s3cret'' [''client.example.com''] ''/etc/letsencrypt/live''
         (rt_A [''203.0.113.5''] (Inl ErrNotExist))
         (req_A ''GET'' [''Bearer s3cret''] ''/certs/example.org/fullchain.pem''))) = 404
   \<and> body (fst (CertsHandler ''s3cret'' [''client.example.com''] ''/etc/letsencrypt/live''
         (rt_A [''203.0.113.5''] (Inl ErrNotExist))
         (req_A ''GET'' [''Bearer s3cret''] ''/certs/example.org/fullchain.pem'')))
       = ''Not Found'' @ [CHR 0x0A]
   \<and> status (fst (CertsHandler ''s3cret'' [''client.example.com''] ''/etc/letsencrypt/live''
         (rt_A [''203.0.113.5''] (Inl (ErrOther ''input/output error'')))
         (req_A ''GET'' [''Bearer s3cret''] ''/certs/example.org/fullchain.pem''))) = 500
   \<and> body (fst (CertsHandler ''s3cret'' [''client.example.com''] ''/etc/letsencrypt/live''
         (rt_A [''203.0.113.5''] (Inl (ErrOther ''input/output error'')))
         (req_A ''GET'' [''Bearer s3cret''] ''/certs/example.org/fullchain.pem'')))
       = ''Internal Server Error'' @ [CHR 0x0A]
   \<and> EvLog (LogReadFailed ''/etc/letsencrypt/live/example.org/fullchain.pem''
         (ErrOther ''input/output error''))
       \<in> set (snd (CertsHandler ''s3cret'' [''client.example.com''] ''/etc/letsencrypt/live''
         (rt_A [''203.0.113.5''] (Inl (ErrOther ''input/output error'')))
         (req_A ''GET'' [''Bearer s3cret''] ''/certs/example.org/fullchain.pem'')))"
proof -
  let ?gone = "rt_A [''203.0.113.5''] (Inl ErrNotExist)"
  let ?broken = "rt_A [''203.0.113.5''] (Inl (ErrOther ''input/output error''))"
  let ?r = "req_A ''GET'' [''Bearer s3cret''] ''/certs/example.org/fullchain.pem''"
  have auth: "Header_Get (Header ?r) ''Authorization'' = ''Bearer '' @ ''s3cret''"
    by code_simp
  have peer: "SplitHostPort (RemoteAddr ?r) = Inr (''203.0.113.5'', ''40000'')"
    by code_simp
  have fcr1: "fst (isAllowedByFCrDNS ?gone ''203.0.113.5'' [''client.example.com''])"
    by code_simp
  have fcr2: "fst (isAllowedByFCrDNS ?broken ''203.0.113.5'' [''client.example.com''])"
    by code_simp
  have cut: "TrimPrefix (URL_Path ?r) ''/certs/'' = ''example.org'' @ ''/'' @ ''fullchain.pem''"
    by code_simp
  have dom: "CHR ''/'' \<notin> set ''example.org''" "''example.org'' \<noteq> []"
    "\<not> Contains ''example.org'' ''..''" "\<not> Contains ''example.org'' [CHR 0x5C]"
    by code_simp+
  have name: "allowedCertFiles ''fullchain.pem''"
    by code_simp
  have path: "Join [''/etc/letsencrypt/live'', ''example.org'', ''fullchain.pem'']
      = ''/etc/letsencrypt/live/example.org/fullchain.pem''"
    by code_simp
  have gone: "ReadFile ?gone ''/etc/letsencrypt/live/example.org/fullchain.pem''
      = Inl ErrNotExist"
    by code_simp
  have broken: "ReadFile ?broken ''/etc/letsencrypt/live/example.org/fullchain.pem''
      = Inl (ErrOther ''input/output error'')"
    by code_simp
  note T1 = read_failures_404_500 [OF auth peer fcr1 cut dom name,
      where certsBaseDir = "''/etc/letsencrypt/live''" and e = "''input/output error''",
      unfolded path]
  note T2 = read_failures_404_500 [OF auth peer fcr2 cut dom name,
      where certsBaseDir = "''/etc/letsencrypt/live''" and e = "''input/output error''",
      unfolded path]
  show ?thesis
    using T1 T2 gone broken by blast
qed

text \<open>
  C8. A request that passed every check for a file that can be read is answered 200
  with content type \<open>application/x-pem-file\<close> and the bytes of the file as body, and
  so is every repetition of it. The handler only reads its token, allowlist and base
  directory (they are arguments of the function, passed unchanged to every call), so
  the answer is a function of the request, the resolver's answers and the file system.
\<close>

theorem authorized_request_served:
  assumes auth: "Header_Get (Header r) ''Authorization'' = ''Bearer '' @ bearerToken"
    and peer: "SplitHostPort (RemoteAddr r) = Inr (clientIP, port)"
    and fcr: "fst (isAllowedByFCrDNS rt clientIP dnsAllowlist)"
    and cut: "TrimPrefix (URL_Path r) ''/certs/'' = domain @ ''/'' @ fileName"
    and dom: "CHR ''/'' \<notin> set domain" "domain \<noteq> []"
      "\<not> Contains domain ''..''" "\<not> Contains domain [CHR 0x5C]"
    and name: "allowedCertFiles fileName"
    and readable: "ReadFile rt (Join [certsBaseDir, domain, fileName]) = Inr data"
  shows "fst (CertsHandler bearerToken dnsAllowlist certsBaseDir rt r)
           = \<lparr>status = 200, content_type = ''application/x-pem-file'', body = data\<rparr>
    \<and> map (\<lambda>q. fst (CertsHandler bearerToken dnsAllowlist certsBaseDir rt q)) (replicate n r)
           = replicate n \<lparr>status = 200, content_type = ''application/x-pem-file'', body = data\<rparr>"
proof -
  note H = handler_split_read [OF auth peer fcr cut dom name, of certsBaseDir]
  show ?thesis
    using readable by (simp add: H Let_def)
qed

theorem authorized_request_served_witness:
  "fst (CertsHandler ''s3cret'' [''client.example.com''] ''/etc/letsencrypt/live''
         (rt_A [''203.0.113.5''] (Inr ''PEM''))
         (req_A ''GET'' [''Bearer s3cret''] ''/certs/example.org/fullchain.pem''))
     = \<lparr>status = 200, content_type = ''application/x-pem-file'', body = ''PEM''\<rparr>
   \<and> map (\<lambda>q. fst (CertsHandler ''s3cret'' [''client.example.com''] ''/etc/letsencrypt/live''
         (rt_A [''203.0.113.5''] (Inr ''PEM'')) q))
       (replicate 3 (req_A ''GET'' [''Bearer s3cret''] ''/certs/example.org/fullchain.pem''))
     = replicate 3 \<lparr>status = 200, content_type = ''application/x-pem-file'', body = ''PEM''\<rparr>"
proof -
  let ?rt = "rt_A [''203.0.113.5''] (Inr ''PEM'')"
  let ?r = "req_A ''GET'' [''Bearer s3cret''] ''/certs/example.org/fullchain.pem''"
  have auth: "Header_Get (Header ?r) ''Authorization'' = ''Bearer '' @ ''s3cret''"
    by code_simp
  have peer: "SplitHostPort (RemoteAddr ?r) = Inr (''203.0.113.5'', ''40000'')"
    by code_simp
  have fcr: "fst (isAllowedByFCrDNS ?rt ''203.0.113.5'' [''client.example.com''])"
    by code_simp
  have cut: "TrimPrefix (URL_Path ?r) ''/certs/'' = ''example.org'' @ ''/'' @ ''fullchain.pem''"
    by code_simp
  have dom: "CHR ''/'' \<notin> set ''example.org''" "''example.org'' \<noteq> []"
    "\<not> Contains ''example.org'' ''..''" "\<not> Contains ''example.org'' [CHR 0x5C]"
    by code_simp+
  have name: "allowedCertFiles ''fullchain.pem''"
    by code_simp
  have readable: "ReadFile ?rt (Join [''/etc/letsencrypt/live'', ''example.org'', ''fullchain.pem''])
      = Inr ''PEM''"
    by code_simp
  show ?thesis
    by (rule authorized_request_served [OF auth peer fcr cut dom name readable])
qed

section \<open>The certificate root\<close>

text \<open>
  C2. For every base directory, every domain segment without \<open>..\<close>, slash or
  backslash and every allowed file name, the joined path is the cleaned base directory
  extended by the domain and the file name: it lies beneath the base directory, and a
  base directory written in clean form (as \<open>/etc/letsencrypt/live\<close> is) followed by a
  separator is a literal prefix of it. Every path the handler reads, for any request,
  lies beneath the base directory.
\<close>

theorem join_stays_beneath_root:
  "(\<not> Contains domain ''..'' \<and> \<not> Contains domain ''/'' \<and> \<not> Contains domain [CHR 0x5C]
      \<and> allowedCertFiles fileName \<longrightarrow>
        Join [certsBaseDir, domain, fileName]
          = dir_prefix (Clean certsBaseDir) @ rel_path domain fileName
        \<and> beneath certsBaseDir (Join [certsBaseDir, domain, fileName])
        \<and> (Clean certsBaseDir = certsBaseDir \<and> certsBaseDir \<noteq> ''.'' \<and> certsBaseDir \<noteq> ''/'' \<longrightarrow>
             take (length certsBaseDir + 1) (Join [certsBaseDir, domain, fileName])
               = certsBaseDir @ ''/''))
   \<and> (EvReadFile p \<in> set (snd (CertsHandler bearerToken dnsAllowlist certsBaseDir rt r)) \<longrightarrow>
        beneath certsBaseDir p)"
proof -
  have one: "Join [certsBaseDir, domain, fileName]
          = dir_prefix (Clean certsBaseDir) @ rel_path domain fileName
        \<and> beneath certsBaseDir (Join [certsBaseDir, domain, fileName])
        \<and> (Clean certsBaseDir = certsBaseDir \<and> certsBaseDir \<noteq> ''.'' \<and> certsBaseDir \<noteq> ''/'' \<longrightarrow>
             take (length certsBaseDir + 1) (Join [certsBaseDir, domain, fileName])
               = certsBaseDir @ ''/'')"
    if v: "\<not> Contains domain ''..''" "\<not> Contains domain ''/''" "allowedCertFiles fileName"
  proof -
    have d: "CHR ''/'' \<notin> set domain" "domain \<noteq> ''..''"
      using validated_domain [OF v(1,2)] by auto
    have f: "plain fileName" "fileName \<noteq> ''..''"
      using allowed_name_plain [OF v(3)] by auto
    have eq: "Join [certsBaseDir, domain, fileName]
          = dir_prefix (Clean certsBaseDir) @ rel_path domain fileName"
      by (rule Join_validated [OF d f])
    have be: "beneath certsBaseDir (Join [certsBaseDir, domain, fileName])"
      by (rule Join_beneath [OF d f])
    have "take (length certsBaseDir + 1) (Join [certsBaseDir, domain, fileName])
               = certsBaseDir @ ''/''"
      if "Clean certsBaseDir = certsBaseDir" "certsBaseDir \<noteq> ''.''" "certsBaseDir \<noteq> ''/''"
      using that by (simp add: eq dir_prefix_def)
    with eq be show ?thesis by blast
  qed
  have two: "beneath certsBaseDir p"
    if rd: "EvReadFile p \<in> set (snd (CertsHandler bearerToken dnsAllowlist certsBaseDir rt r))"
  proof -
    obtain d f where df: "CHR ''/'' \<notin> set d" "\<not> Contains d ''..''" "allowedCertFiles f"
      "p = Join [certsBaseDir, d, f]"
      using handler_reads [OF rd] by blast
    have "d \<noteq> ''..''"
      using df(2) Contains_self [of "''..''"] by auto
    then show ?thesis
      using Join_beneath [OF df(1) _ _ _, of f certsBaseDir] allowed_name_plain [OF df(3)] df(4)
      by simp
  qed
  show ?thesis
    using one two by blast
qed

theorem join_stays_beneath_root_witness:
  "Join [''/etc/letsencrypt/live'', ''example.org'', ''fullchain.pem'']
     = ''/etc/letsencrypt/live/example.org/fullchain.pem''
   \<and> beneath ''/etc/letsencrypt/live''
        (Join [''/etc/letsencrypt/live'', ''example.org'', ''fullchain.pem''])
   \<and> take (length ''/etc/letsencrypt/live'' + 1)
        (Join [''/etc/letsencrypt/live'', ''example.org'', ''fullchain.pem''])
      = ''/etc/letsencrypt/live'' @ ''/''
   \<and> EvReadFile ''/etc/letsencrypt/live/example.org/fullchain.pem''
        \<in> set (snd (CertsHandler ''s3cret'' [''client.example.com''] ''/etc/letsencrypt/live''
              (rt_A [''203.0.113.5''] (Inr ''PEM''))
              (req_A ''GET'' [''Bearer s3cret''] ''/certs/example.org/fullchain.pem'')))
   \<and> beneath ''/etc/letsencrypt/live'' ''/etc/letsencrypt/live/example.org/fullchain.pem''"
proof -
  have v: "\<not> Contains ''example.org'' ''..''" "\<not> Contains ''example.org'' ''/''"
    "\<not> Contains ''example.org'' [CHR 0x5C]" "allowedCertFiles ''fullchain.pem''"
    by code_simp+
  have c: "Clean ''/etc/letsencrypt/live'' = ''/etc/letsencrypt/live''"
    by code_simp
  have j: "Join [''/etc/letsencrypt/live'', ''example.org'', ''fullchain.pem'']
     = ''/etc/letsencrypt/live/example.org/fullchain.pem''"
    by code_simp
  have e: "EvReadFile ''/etc/letsencrypt/live/example.org/fullchain.pem''
        \<in> set (snd (CertsHandler ''s3cret'' [''client.example.com''] ''/etc/letsencrypt/live''
              (rt_A [''203.0.113.5''] (Inr ''PEM''))
              (req_A ''GET'' [''Bearer s3cret''] ''/certs/example.org/fullchain.pem'')))"
    by code_simp
  show ?thesis
    using v c j e
      join_stays_beneath_root [of "''example.org''" "''fullchain.pem''" "''/etc/letsencrypt/live''"
        "''/etc/letsencrypt/live/example.org/fullchain.pem''" "''s3cret''"
        "[''client.example.com'']" "rt_A [''203.0.113.5''] (Inr ''PEM'')"
        "req_A ''GET'' [''Bearer s3cret''] ''/certs/example.org/fullchain.pem''"]
    by simp
qed

section \<open>Resolver errors\<close>

text \<open>
  C7. A forward lookup that fails for a candidate does not end the evaluation: the
  loop over the PTR records goes on with the remaining records and the loop over the
  allowlist with the remaining entries, having recorded the lookup. When every
  candidate's forward lookup fails the verdict is \<open>false\<close>; in general the loop over
  the PTR records says \<open>true\<close> exactly when some record's hostname matches an
  allowlist entry and resolves to a list holding the client address, so whenever
  nothing confirms (lookups failing, or resolving without the client address) the
  verifier returns \<open>false\<close> and the handler answers 403. The handler answers with
  one of six statuses, and 500 only after the verifier has accepted and a file read
  has failed with an error other than not-exist: no resolver error becomes a 5xx.
\<close>

theorem dns_errors_do_not_abort:
  "(LookupHost rt (TrimSuffix ptr ''.'') = Inl err \<longrightarrow>
      fst (ptr_loop rt clientIP allowlist (ptr # ptrs)) = fst (ptr_loop rt clientIP allowlist ptrs)
      \<and> (\<exists>t. snd (ptr_loop rt clientIP allowlist (ptr # ptrs))
               = t @ snd (ptr_loop rt clientIP allowlist ptrs)))
   \<and> (EqualFold rt hostname allowed \<and> LookupHost rt hostname = Inl err \<longrightarrow>
      allowed_loop rt clientIP hostname (allowed # rest)
        = (fst (allowed_loop rt clientIP hostname rest),
           EvLookupHost hostname # snd (allowed_loop rt clientIP hostname rest)))
   \<and> ((\<forall>p \<in> set ptrs. \<exists>e. LookupHost rt (TrimSuffix p ''.'') = Inl e) \<longrightarrow>
        \<not> fst (ptr_loop rt clientIP allowlist ptrs))
   \<and> (fst (ptr_loop rt clientIP allowlist ptrs) \<longleftrightarrow>
        (\<exists>p \<in> set ptrs. \<exists>a \<in> set allowlist.
           EqualFold rt (TrimSuffix p ''.'') a \<and>
           (\<exists>addrs. LookupHost rt (TrimSuffix p ''.'') = Inr addrs \<and> clientIP \<in> set addrs)))
   \<and> (\<not> (\<exists>found. LookupAddr rt clientIP = Inr found \<and>
           (\<exists>p \<in> set found. \<exists>a \<in> set allowlist.
              EqualFold rt (TrimSuffix p ''.'') a \<and>
              (\<exists>addrs. LookupHost rt (TrimSuffix p ''.'') = Inr addrs \<and>
                 clientIP \<in> set addrs))) \<longrightarrow>
        fst (isAllowedByFCrDNS rt clientIP allowlist) = False)
   \<and> (Header_Get (Header r) ''Authorization'' = ''Bearer '' @ bearerToken \<and>
        SplitHostPort (RemoteAddr r) = Inr (clientIP, port) \<and>
        \<not> fst (isAllowedByFCrDNS rt clientIP dnsAllowlist) \<longrightarrow>
          status (fst (CertsHandler bearerToken dnsAllowlist certsBaseDir rt r)) = 403)
   \<and> status (fst (CertsHandler bearerToken dnsAllowlist certsBaseDir rt r))
        \<in> {200, 400, 401, 403, 404, 500}
   \<and> (status (fst (CertsHandler bearerToken dnsAllowlist certsBaseDir rt r)) = 500 \<longrightarrow>
        (\<exists>host port p e. SplitHostPort (RemoteAddr r) = Inr (host, port) \<and>
           fst (isAllowedByFCrDNS rt host dnsAllowlist) \<and> ReadFile rt p = Inl (ErrOther e)))"
proof -
  have none: "(\<forall>p \<in> set ptrs. \<exists>e. LookupHost rt (TrimSuffix p ''.'') = Inl e) \<longrightarrow>
        \<not> fst (ptr_loop rt clientIP allowlist ptrs)"
    by (auto simp: ptr_loop_fst allowed_loop_fst)
  have verdict: "fst (ptr_loop rt clientIP allowlist ptrs) \<longleftrightarrow>
        (\<exists>p \<in> set ptrs. \<exists>a \<in> set allowlist.
           EqualFold rt (TrimSuffix p ''.'') a \<and>
           (\<exists>addrs. LookupHost rt (TrimSuffix p ''.'') = Inr addrs \<and> clientIP \<in> set addrs))"
    by (simp only: ptr_loop_fst allowed_loop_fst)
  have unconfirmed: "\<not> (\<exists>found. LookupAddr rt clientIP = Inr found \<and>
           (\<exists>p \<in> set found. \<exists>a \<in> set allowlist.
              EqualFold rt (TrimSuffix p ''.'') a \<and>
              (\<exists>addrs. LookupHost rt (TrimSuffix p ''.'') = Inr addrs \<and>
                 clientIP \<in> set addrs))) \<longrightarrow>
        fst (isAllowedByFCrDNS rt clientIP allowlist) = False"
    unfolding isAllowedByFCrDNS_fst allowed_loop_fst by blast
  have refused: "Header_Get (Header r) ''Authorization'' = ''Bearer '' @ bearerToken \<and>
        SplitHostPort (RemoteAddr r) = Inr (clientIP, port) \<and>
        \<not> fst (isAllowedByFCrDNS rt clientIP dnsAllowlist) \<longrightarrow>
          status (fst (CertsHandler bearerToken dnsAllowlist certsBaseDir rt r)) = 403"
    by (simp add: handler_denied http_Error_def)
  have one: "LookupHost rt (TrimSuffix ptr ''.'') = Inl err \<longrightarrow>
      fst (ptr_loop rt clientIP allowlist (ptr # ptrs))
        = fst (ptr_loop rt clientIP allowlist ptrs)
      \<and> (\<exists>t. snd (ptr_loop rt clientIP allowlist (ptr # ptrs))
               = t @ snd (ptr_loop rt clientIP allowlist ptrs))"
  proof
    assume failed: "LookupHost rt (TrimSuffix ptr ''.'') = Inl err"
    have no: "\<not> fst (allowed_loop rt clientIP (TrimSuffix ptr ''.'') allowlist)"
      using failed by (rule allowed_loop_lookup_error)
    then have "fst (ptr_loop rt clientIP allowlist (ptr # ptrs))
        = fst (ptr_loop rt clientIP allowlist ptrs)"
      by (simp add: ptr_loop_fst del: ptr_loop.simps)
    moreover have "snd (ptr_loop rt clientIP allowlist (ptr # ptrs))
        = snd (allowed_loop rt clientIP (TrimSuffix ptr ''.'') allowlist)
            @ snd (ptr_loop rt clientIP allowlist ptrs)"
      using no by (simp add: ptr_loop_snd del: ptr_loop.simps)
    ultimately show "fst (ptr_loop rt clientIP allowlist (ptr # ptrs))
        = fst (ptr_loop rt clientIP allowlist ptrs)
      \<and> (\<exists>t. snd (ptr_loop rt clientIP allowlist (ptr # ptrs))
               = t @ snd (ptr_loop rt clientIP allowlist ptrs))"
      by blast
  qed
  have two: "EqualFold rt hostname allowed \<and> LookupHost rt hostname = Inl err \<longrightarrow>
      allowed_loop rt clientIP hostname (allowed # rest)
        = (fst (allowed_loop rt clientIP hostname rest),
           EvLookupHost hostname # snd (allowed_loop rt clientIP hostname rest))"
    by (simp split: prod.splits)
  note cases = handler_status_cases [of bearerToken dnsAllowlist certsBaseDir rt r]
  have three: "status (fst (CertsHandler bearerToken dnsAllowlist certsBaseDir rt r))
        \<in> {200, 400, 401, 403, 404, 500}"
    using cases by (rule conjunct1)
  have four: "status (fst (CertsHandler bearerToken dnsAllowlist certsBaseDir rt r)) = 500 \<longrightarrow>
        (\<exists>host port p e. SplitHostPort (RemoteAddr r) = Inr (host, port) \<and>
           fst (isAllowedByFCrDNS rt host dnsAllowlist) \<and> ReadFile rt p = Inl (ErrOther e))"
  proof
    assume s: "status (fst (CertsHandler bearerToken dnsAllowlist certsBaseDir rt r)) = 500"
    have "status (fst (CertsHandler bearerToken dnsAllowlist certsBaseDir rt r)) \<notin> {401, 403}"
      using s by simp
    then obtain host port where "SplitHostPort (RemoteAddr r) = Inr (host, port)"
      and "fst (isAllowedByFCrDNS rt host dnsAllowlist)"
      using cases by blast
    moreover obtain p e where "ReadFile rt p = Inl (ErrOther e)"
      using s cases by blast
    ultimately show "\<exists>host port p e. SplitHostPort (RemoteAddr r) = Inr (host, port) \<and>
           fst (isAllowedByFCrDNS rt host dnsAllowlist) \<and> ReadFile rt p = Inl (ErrOther e)"
      by blast
  qed
  show ?thesis
    by (intro conjI) (fact one two none verdict unconfirmed refused three four)+
qed

theorem dns_errors_do_not_abort_witness:
  "LookupHost (sample_rt ''203.0.113.5'' [''other.example.net.'', ''client.example.com.'']
       [''203.0.113.5''] (Inr ''PEM'')) (TrimSuffix ''other.example.net.'' ''.'')
     = Inl ''no such host''
   \<and> fst (ptr_loop (sample_rt ''203.0.113.5'' [''other.example.net.'', ''client.example.com.'']
       [''203.0.113.5''] (Inr ''PEM'')) ''203.0.113.5''
       [''other.example.net'', ''client.example.com'']
       [''other.example.net.'', ''client.example.com.''])
   \<and> status (fst (CertsHandler ''s3cret'' [''other.example.net'', ''client.example.com'']
       ''/etc/letsencrypt/live''
       (sample_rt ''203.0.113.5'' [''other.example.net.'', ''client.example.com.'']
          [''203.0.113.5''] (Inr ''PEM''))
       (req_A ''GET'' [''Bearer s3cret''] ''/certs/example.org/fullchain.pem''))) = 200
   \<and> status (fst (CertsHandler ''s3cret'' [''other.example.net'']
       ''/etc/letsencrypt/live''
       (sample_rt ''203.0.113.5'' [''other.example.net.'']
          [''203.0.113.5''] (Inr ''PEM''))
       (req_A ''GET'' [''Bearer s3cret''] ''/certs/example.org/fullchain.pem''))) = 403
   \<and> \<not> fst (ptr_loop (sample_rt ''203.0.113.5'' [''other.example.net.'', ''client.example.com.'']
       [''203.0.113.9''] (Inr ''PEM'')) ''203.0.113.5''
       [''other.example.net'', ''client.example.com'']
       [''other.example.net.'', ''client.example.com.''])
   \<and> status (fst (CertsHandler ''s3cret'' [''other.example.net'', ''client.example.com'']
       ''/etc/letsencrypt/live''
       (sample_rt ''203.0.113.5'' [''other.example.net.'', ''client.example.com.'']
          [''203.0.113.9''] (Inr ''PEM''))
       (req_A ''GET'' [''Bearer s3cret''] ''/certs/example.org/fullchain.pem''))) = 403"
proof -
  let ?rt = "sample_rt ''203.0.113.5'' [''other.example.net.'', ''client.example.com.'']
       [''203.0.113.5''] (Inr ''PEM'')"
  let ?elsewhere = "sample_rt ''203.0.113.5'' [''other.example.net.'', ''client.example.com.'']
       [''203.0.113.9''] (Inr ''PEM'')"
  let ?r = "req_A ''GET'' [''Bearer s3cret''] ''/certs/example.org/fullchain.pem''"
  have err: "LookupHost ?rt (TrimSuffix ''other.example.net.'' ''.'') = Inl ''no such host''"
    by code_simp
  have later: "fst (ptr_loop ?rt ''203.0.113.5'' [''other.example.net'', ''client.example.com'']
      [''client.example.com.''])"
    by code_simp
  have served: "status (fst (CertsHandler ''s3cret'' [''other.example.net'', ''client.example.com'']
       ''/etc/letsencrypt/live'' ?rt ?r)) = 200"
    by code_simp
  have refused: "status (fst (CertsHandler ''s3cret'' [''other.example.net'']
       ''/etc/letsencrypt/live''
       (sample_rt ''203.0.113.5'' [''other.example.net.'']
          [''203.0.113.5''] (Inr ''PEM'')) ?r)) = 403"
    by code_simp
  have auth: "Header_Get (Header ?r) ''Authorization'' = ''Bearer '' @ ''s3cret''"
    by code_simp
  have peer: "SplitHostPort (RemoteAddr ?r) = Inr (''203.0.113.5'', ''40000'')"
    by code_simp
  have err2: "LookupHost ?elsewhere (TrimSuffix ''other.example.net.'' ''.'')
      = Inl ''no such host''"
    by code_simp
  have nowhere: "\<not> fst (ptr_loop ?elsewhere ''203.0.113.5''
      [''other.example.net'', ''client.example.com''] [''client.example.com.''])"
    by code_simp
  have unconfirmed: "\<not> fst (isAllowedByFCrDNS ?elsewhere ''203.0.113.5''
      [''other.example.net'', ''client.example.com''])"
    by code_simp
  show ?thesis
    using err later served refused auth peer err2 nowhere unconfirmed
      dns_errors_do_not_abort [where rt = ?rt and ptr = "''other.example.net.''"
        and err = "''no such host''" and clientIP = "''203.0.113.5''"
        and allowlist = "[''other.example.net'', ''client.example.com'']"
        and ptrs = "[''client.example.com.'']"]
      dns_errors_do_not_abort [where rt = ?elsewhere and ptr = "''other.example.net.''"
        and err = "''no such host''" and clientIP = "''203.0.113.5''"
        and allowlist = "[''other.example.net'', ''client.example.com'']"
        and ptrs = "[''client.example.com.'']"
        and r = ?r and bearerToken = "''s3cret''" and port = "''40000''"
        and dnsAllowlist = "[''other.example.net'', ''client.example.com'']"
        and certsBaseDir = "''/etc/letsencrypt/live''"]
    by simp
qed

section \<open>Textual comparison of addresses\<close>

text \<open>
  C10. Acceptance by the verifier needs a forward lookup among whose answers the
  client address occurs as the very same string, and an answer of the handler other
  than 401 and 403 needs that for the host part of \<open>RemoteAddr\<close>. Addresses are not
  parsed: a peer written \<open>0:0:0:0:0:0:0:1\<close> is refused when the forward zone answers
  \<open>::1\<close>.
\<close>

theorem forward_confirmation_is_textual:
  "(fst (isAllowedByFCrDNS rt clientIP allowlist) \<longrightarrow>
      (\<exists>hostname addrs. LookupHost rt hostname = Inr addrs \<and> clientIP \<in> set addrs))
   \<and> (status (fst (CertsHandler bearerToken dnsAllowlist certsBaseDir rt r)) \<notin> {401, 403} \<longrightarrow>
      (\<exists>host port hostname addrs.
         SplitHostPort (RemoteAddr r) = Inr (host, port) \<and>
         LookupHost rt hostname = Inr addrs \<and> host \<in> set addrs))"
proof -
  have one: "\<exists>hostname addrs. LookupHost rt hostname = Inr addrs \<and> ip \<in> set addrs"
    if "fst (isAllowedByFCrDNS rt ip al)" for ip al
    using that unfolding isAllowedByFCrDNS_fst allowed_loop_fst by blast
  have two: "\<exists>host port hostname addrs.
         SplitHostPort (RemoteAddr r) = Inr (host, port) \<and>
         LookupHost rt hostname = Inr addrs \<and> host \<in> set addrs"
    if ns: "status (fst (CertsHandler bearerToken dnsAllowlist certsBaseDir rt r)) \<notin> {401, 403}"
  proof -
    obtain host port where hp: "SplitHostPort (RemoteAddr r) = Inr (host, port)"
      and ok: "fst (isAllowedByFCrDNS rt host dnsAllowlist)"
      using ns handler_status_cases [of bearerToken dnsAllowlist certsBaseDir rt r] by blast
    show ?thesis
      using hp one [OF ok] by blast
  qed
  show ?thesis
    using one [of clientIP allowlist] two by (intro conjI impI) auto
qed

theorem forward_confirmation_is_textual_witness:
  "fst (isAllowedByFCrDNS (sample_rt ''::1'' [''client.example.com.''] [''::1''] (Inr ''PEM''))
       ''::1'' [''client.example.com''])
   \<and> (\<exists>hostname addrs.
         LookupHost (sample_rt ''::1'' [''client.example.com.''] [''::1''] (Inr ''PEM'')) hostname
           = Inr addrs \<and> ''::1'' \<in> set addrs)
   \<and> \<not> fst (isAllowedByFCrDNS
         (sample_rt ''0:0:0:0:0:0:0:1'' [''client.example.com.''] [''::1''] (Inr ''PEM''))
         ''0:0:0:0:0:0:0:1'' [''client.example.com''])
   \<and> status (fst (CertsHandler ''s3cret'' [''client.example.com''] ''/etc/letsencrypt/live''
         (sample_rt ''0:0:0:0:0:0:0:1'' [''client.example.com.''] [''::1''] (Inr ''PEM''))
         (sample_req ''GET'' [''Bearer s3cret''] ''[0:0:0:0:0:0:0:1]:40000''
            ''/certs/example.org/fullchain.pem''))) = 403
   \<and> status (fst (CertsHandler ''s3cret'' [''client.example.com''] ''/etc/letsencrypt/live''
         (sample_rt ''::1'' [''client.example.com.''] [''::1''] (Inr ''PEM''))
         (sample_req ''GET'' [''Bearer s3cret''] ''[::1]:40000''
            ''/certs/example.org/fullchain.pem''))) = 200"
proof -
  have short: "fst (isAllowedByFCrDNS
      (sample_rt ''::1'' [''client.example.com.''] [''::1''] (Inr ''PEM''))
      ''::1'' [''client.example.com''])"
    by code_simp
  have long: "\<not> fst (isAllowedByFCrDNS
      (sample_rt ''0:0:0:0:0:0:0:1'' [''client.example.com.''] [''::1''] (Inr ''PEM''))
      ''0:0:0:0:0:0:0:1'' [''client.example.com''])"
    by code_simp
  have refused: "status (fst (CertsHandler ''s3cret'' [''client.example.com'']
      ''/etc/letsencrypt/live''
      (sample_rt ''0:0:0:0:0:0:0:1'' [''client.example.com.''] [''::1''] (Inr ''PEM''))
      (sample_req ''GET'' [''Bearer s3cret''] ''[0:0:0:0:0:0:0:1]:40000''
         ''/certs/example.org/fullchain.pem''))) = 403"
    by code_simp
  have served: "status (fst (CertsHandler ''s3cret'' [''client.example.com'']
      ''/etc/letsencrypt/live''
      (sample_rt ''::1'' [''client.example.com.''] [''::1''] (Inr ''PEM''))
      (sample_req ''GET'' [''Bearer s3cret''] ''[::1]:40000''
         ''/certs/example.org/fullchain.pem''))) = 200"
    by code_simp
  show ?thesis
    using short long refused served
      forward_confirmation_is_textual [of
        "sample_rt ''::1'' [''client.example.com.''] [''::1''] (Inr ''PEM'')" "''::1''"
        "[''client.example.com'']"]
    by blast
qed

end
